theory Spec2Isabelle
  imports Complex_Main "HOL-Library.Log_Nat"
begin

section \<open>Python values used by \<open>buildscripts/monitor_build_status/cli.py\<close>\<close>

text \<open>
  The exceptions that the modelled code (and the standard-library functions it calls)
  can raise. \<open>UpstreamError\<close> stands for any exception raised inside one of the external
  collaborators (Jira, Evergreen, Slack); its argument is the collaborator's message.
\<close>

datatype py_error =
    KeyError
  | ZeroDivisionError
  | OverflowError
  | StatisticsError
  | UpstreamError string

subsection \<open>Python floats (IEEE 754 binary64)\<close>

text \<open>
  A finite double is the rational number it denotes; the sign of zero is not tracked
  (it only shows in formatting). Arithmetic rounds to nearest, ties to even, on a
  53-bit significand, with gradual underflow below \<open>2 powi -1022\<close>.
\<close>

datatype pyfloat = Finite rat | PosInf | NegInf | NaN

definition ilog2 :: "rat \<Rightarrow> int" where
  \<comment> \<open>\<open>\<lfloor>log\<^sub>2 x\<rfloor>\<close> for \<open>x > 0\<close>, computed from the bit lengths of numerator and denominator\<close>
  "ilog2 x =
     (let (p, q) = quotient_of x; d = bitlen p - bitlen q
      in if 2 powi d \<le> x then d else d - 1)"

definition round_half_even :: "rat \<Rightarrow> int" where
  "round_half_even x =
     (let f = \<lfloor>x\<rfloor>; d = x - of_int f
      in if d < 1 / 2 then f
         else if 1 / 2 < d then f + 1
         else if even f then f else f + 1)"

definition double_exponent :: "rat \<Rightarrow> int" where
  \<comment> \<open>the exponent of the unit in the last place of the doubles around \<open>x \<noteq> 0\<close>\<close>
  "double_exponent x = max (ilog2 \<bar>x\<bar> - 52) (- 1074)"

definition round_double :: "rat \<Rightarrow> rat" where
  \<comment> \<open>round to nearest even, exponent unbounded above\<close>
  "round_double x =
     (if x = 0 then 0
      else let e = double_exponent x
           in of_int (round_half_even (x / 2 powi e)) * 2 powi e)"

definition double_of_rat :: "rat \<Rightarrow> pyfloat" where
  \<comment> \<open>the result of a float operation whose exact value is \<open>x\<close>: overflow gives an infinity\<close>
  "double_of_rat x =
     (let r = round_double x
      in if 2 ^ 1024 \<le> r then PosInf else if r \<le> - (2 ^ 1024) then NegInf else Finite r)"

definition py_truediv :: "int \<Rightarrow> int \<Rightarrow> py_error + pyfloat" where
  \<comment> \<open>\<open>a / b\<close> on two ints: correctly rounded, raising instead of returning an infinity\<close>
  "py_truediv a b =
     (if b = 0 then Inl ZeroDivisionError
      else case double_of_rat (of_int a / of_int b) of
             Finite r \<Rightarrow> Inr (Finite r)
           | _ \<Rightarrow> Inl OverflowError)"

fun float_mul :: "pyfloat \<Rightarrow> pyfloat \<Rightarrow> pyfloat" where
  "float_mul NaN _ = NaN"
| "float_mul _ NaN = NaN"
| "float_mul (Finite a) (Finite b) = double_of_rat (a * b)"
| "float_mul (Finite a) PosInf = (if a = 0 then NaN else if 0 < a then PosInf else NegInf)"
| "float_mul (Finite a) NegInf = (if a = 0 then NaN else if 0 < a then NegInf else PosInf)"
| "float_mul PosInf (Finite b) = (if b = 0 then NaN else if 0 < b then PosInf else NegInf)"
| "float_mul NegInf (Finite b) = (if b = 0 then NaN else if 0 < b then NegInf else PosInf)"
| "float_mul PosInf PosInf = PosInf"
| "float_mul PosInf NegInf = NegInf"
| "float_mul NegInf PosInf = NegInf"
| "float_mul NegInf NegInf = PosInf"

fun float_gt_int :: "pyfloat \<Rightarrow> int \<Rightarrow> bool" where
  \<comment> \<open>\<open>x > n\<close> for a float and an int: an exact comparison, false on NaN\<close>
  "float_gt_int (Finite r) n = (of_int n < r)"
| "float_gt_int PosInf n = True"
| "float_gt_int NegInf n = False"
| "float_gt_int NaN n = False"

fun float_lt_int :: "pyfloat \<Rightarrow> int \<Rightarrow> bool" where
  "float_lt_int (Finite r) n = (r < of_int n)"
| "float_lt_int PosInf n = False"
| "float_lt_int NegInf n = True"
| "float_lt_int NaN n = False"


subsection \<open>The builtins \<open>any\<close> and \<open>all\<close> over a generator\<close>

fun py_any :: "('a \<Rightarrow> bool) \<Rightarrow> 'a list \<Rightarrow> bool" where
  "py_any P [] = False"
| "py_any P (x # xs) = (if P x then True else py_any P xs)"

fun py_all :: "('a \<Rightarrow> bool) \<Rightarrow> 'a list \<Rightarrow> bool" where
  "py_all P [] = True"
| "py_all P (x # xs) = (if P x then py_all P xs else False)"

section \<open>The verdict (\<open>evaluate_build_redness\<close>, the \<open>if\<close>/\<open>elif\<close>/\<open>else\<close> on the percentages)\<close>

datatype verdict = RED | GREEN | YELLOW

definition action_of_percentages :: "pyfloat list \<Rightarrow> verdict" where
  "action_of_percentages threshold_percentages =
     (if py_any (\<lambda>percentage. float_gt_int percentage 100) threshold_percentages then RED
      else if py_all (\<lambda>percentage. float_lt_int percentage 50) threshold_percentages then GREEN
      else YELLOW)"

section \<open>Jira build-failure tickets and the \<open>BFsReport\<close>\<close>

text \<open>
  Modelled from the spec: the enumerations \<open>TestType\<close> and \<open>BfTemperature\<close> and the
  ticket record of \<open>jira_service.py\<close> (test type, temperature with \<open>NONE\<close> for "not yet
  classified", the assigned team, possibly absent, and the associated Evergreen projects).
  \<open>cli.py\<close> names exactly the enumeration members below.
\<close>

datatype TestType = CORRECTNESS | PERFORMANCE

datatype BfTemperature = HOT | COLD | NONE

record BfIssue =
  key :: string
  assigned_team :: "string option"
  test_type :: TestType
  temperature :: BfTemperature
  evergreen_projects :: "string list"

text \<open>
  Modelled from the spec: \<open>EvgProjectsInfo\<close> (\<open>evergreen_service.py\<close>), a mapping from
  branch name to the project identifiers that track it, and the active project identifiers
  that scope the ticket query. These are the two fields that \<open>cli.py\<close> reads.
\<close>

record EvgProjectsInfo =
  branch_to_projects_map :: "string \<rightharpoonup> string list"
  active_project_names :: "string list"

text \<open>
  Modelled from the spec: class \<open>BFsReport\<close> (\<open>bfs_report.py\<close>) with \<open>empty\<close>,
  \<open>add_bf_data\<close>, \<open>get_bf_count\<close> and \<open>all_assigned_teams\<close>. The report holds the
  classified tickets and the set of teams seen so far (kept in order of first insertion);
  a ticket without a team goes to the sentinel bucket; a ticket none of whose projects is
  active is excluded at ingestion; counts are computed on demand from the filter.
\<close>

record BFsReport =
  bfs :: "BfIssue list"
  all_assigned_teams :: "string list"

definition team_of :: "BfIssue \<Rightarrow> string" where
  \<comment> \<open>Modelled from the spec: a ticket without a team is recorded under a sentinel bucket\<close>
  "team_of bf = (case assigned_team bf of None \<Rightarrow> ''unassigned'' | Some t \<Rightarrow> t)"

definition BFsReport_empty :: BFsReport where
  \<comment> \<open>Modelled from the spec: \<open>BFsReport.empty()\<close>, the report at the start of a run\<close>
  "BFsReport_empty = \<lparr>bfs = [], all_assigned_teams = []\<rparr>"

definition add_bf_data :: "BFsReport \<Rightarrow> BfIssue \<Rightarrow> EvgProjectsInfo \<Rightarrow> BFsReport" where
  \<comment> \<open>Modelled from the spec: \<open>BFsReport.add_bf_data\<close>; a ticket with no active project is
      excluded at ingestion, any other is stored and its team added to the teams seen so far\<close>
  "add_bf_data report bf evg_projects_info =
     (if py_any (\<lambda>p. p \<in> set (active_project_names evg_projects_info)) (evergreen_projects bf)
      then \<lparr>bfs = bfs report @ [bf],
            all_assigned_teams =
              (if team_of bf \<in> set (all_assigned_teams report) then all_assigned_teams report
               else all_assigned_teams report @ [team_of bf])\<rparr>
      else report)"

definition bf_matches :: "TestType list \<Rightarrow> BfTemperature list \<Rightarrow> string option \<Rightarrow> BfIssue \<Rightarrow> bool" where
  \<comment> \<open>Modelled from the spec: the filter of \<open>BFsReport.get_bf_count\<close>: test type in the given
      set and temperature in the given set, optionally restricted to one team\<close>
  "bf_matches test_types bf_temperatures team bf \<longleftrightarrow>
     test_type bf \<in> set test_types \<and> temperature bf \<in> set bf_temperatures \<and>
     (case team of None \<Rightarrow> True | Some t \<Rightarrow> team_of bf = t)"

definition get_bf_count :: "BFsReport \<Rightarrow> TestType list \<Rightarrow> BfTemperature list \<Rightarrow> string option \<Rightarrow> int" where
  \<comment> \<open>Modelled from the spec: \<open>BFsReport.get_bf_count\<close>, the number of matching tickets
      (0 when none matches)\<close>
  "get_bf_count report test_types bf_temperatures team =
     int (length (filter (bf_matches test_types bf_temperatures team) (bfs report)))"

section \<open>Thresholds and the BF-count status (\<open>_get_bf_counts_status\<close>)\<close>

definition OVERALL_HOT_BF_COUNT_THRESHOLD :: int where "OVERALL_HOT_BF_COUNT_THRESHOLD = 30"
definition OVERALL_COLD_BF_COUNT_THRESHOLD :: int where "OVERALL_COLD_BF_COUNT_THRESHOLD = 100"
definition OVERALL_PERF_BF_COUNT_THRESHOLD :: int where "OVERALL_PERF_BF_COUNT_THRESHOLD = 30"
definition PER_TEAM_HOT_BF_COUNT_THRESHOLD :: int where "PER_TEAM_HOT_BF_COUNT_THRESHOLD = 7"
definition PER_TEAM_COLD_BF_COUNT_THRESHOLD :: int where "PER_TEAM_COLD_BF_COUNT_THRESHOLD = 20"
definition PER_TEAM_PERF_BF_COUNT_THRESHOLD :: int where "PER_TEAM_PERF_BF_COUNT_THRESHOLD = 10"

text \<open>
  The status message is kept as structured data: one record per rendered line, with the
  values that the f-strings interpolate. Number formatting (\<open>:.2f\<close>, \<open>:.0f\<close>) and the
  table layout of \<open>as_str_table\<close> are not modelled.
\<close>

record status_line =
  line_scope :: string
  line_bf_type :: string
  line_bf_count :: int
  line_percentage :: pyfloat
  line_threshold :: int

record bf_count_status =
  table_of :: BFsReport
  count_lines :: "status_line list"

definition bind_error :: "py_error + 'a \<Rightarrow> ('a \<Rightarrow> py_error + 'b) \<Rightarrow> py_error + 'b" where
  \<comment> \<open>sequencing: an exception ends the computation\<close>
  "bind_error m f = (case m of Inl e \<Rightarrow> Inl e | Inr x \<Rightarrow> f x)"

definition percentage_of :: "int \<Rightarrow> int \<Rightarrow> py_error + pyfloat" where
  \<comment> \<open>\<open>bf_count / threshold * 100\<close>\<close>
  "percentage_of bf_count threshold =
     bind_error (py_truediv bf_count threshold) (\<lambda>q. Inr (float_mul q (Finite 100)))"

definition make_status_msg ::
  "pyfloat list \<Rightarrow> string \<Rightarrow> string \<Rightarrow> int \<Rightarrow> int \<Rightarrow> py_error + (status_line \<times> pyfloat list)" where
  \<comment> \<open>the closure \<open>_make_status_msg\<close>; the list \<open>percentages\<close> it appends to is passed and returned\<close>
  "make_status_msg percentages scope bf_type bf_count threshold =
     bind_error (percentage_of bf_count threshold) (\<lambda>percentage.
       Inr (\<lparr>line_scope = scope, line_bf_type = bf_type, line_bf_count = bf_count,
              line_percentage = percentage, line_threshold = threshold\<rparr>,
            percentages @ [percentage]))"

definition overall_bf_counts :: "BFsReport \<Rightarrow> int \<times> int \<times> int" where
  "overall_bf_counts bfs_report =
     (get_bf_count bfs_report [CORRECTNESS] [HOT] None,
      get_bf_count bfs_report [CORRECTNESS] [COLD, NONE] None,
      get_bf_count bfs_report [PERFORMANCE] [HOT, COLD, NONE] None)"

fun max_per_team_loop :: "BFsReport \<Rightarrow> string list \<Rightarrow> int \<times> int \<times> int \<Rightarrow> int \<times> int \<times> int" where
  "max_per_team_loop bfs_report [] maxima = maxima"
| "max_per_team_loop bfs_report (team # teams)
       (max_per_team_hot_bf_count, max_per_team_cold_bf_count, max_per_team_perf_bf_count) =
     (let per_team_hot_bf_count = get_bf_count bfs_report [CORRECTNESS] [HOT] (Some team);
          max_hot = (if per_team_hot_bf_count > max_per_team_hot_bf_count
                     then per_team_hot_bf_count else max_per_team_hot_bf_count);
          per_team_cold_bf_count = get_bf_count bfs_report [CORRECTNESS] [COLD, NONE] (Some team);
          max_cold = (if per_team_cold_bf_count > max_per_team_cold_bf_count
                      then per_team_cold_bf_count else max_per_team_cold_bf_count);
          per_team_perf_bf_count =
            get_bf_count bfs_report [PERFORMANCE] [HOT, COLD, NONE] (Some team);
          max_perf = (if per_team_perf_bf_count > max_per_team_perf_bf_count
                      then per_team_perf_bf_count else max_per_team_perf_bf_count)
      in max_per_team_loop bfs_report teams (max_hot, max_cold, max_perf))"

definition max_per_team_bf_counts :: "BFsReport \<Rightarrow> int \<times> int \<times> int" where
  "max_per_team_bf_counts bfs_report =
     max_per_team_loop bfs_report (all_assigned_teams bfs_report) (0, 0, 0)"

definition get_bf_counts_status :: "BFsReport \<Rightarrow> py_error + (bf_count_status \<times> pyfloat list)" where
  "get_bf_counts_status bfs_report =
     (case overall_bf_counts bfs_report of
        (overall_hot_bf_count, overall_cold_bf_count, overall_perf_bf_count) \<Rightarrow>
     bind_error (make_status_msg [] ''Overall'' ''Hot'' overall_hot_bf_count
                   OVERALL_HOT_BF_COUNT_THRESHOLD) (\<lambda>(l1, ps1).
     bind_error (make_status_msg ps1 ''Overall'' ''Cold'' overall_cold_bf_count
                   OVERALL_COLD_BF_COUNT_THRESHOLD) (\<lambda>(l2, ps2).
     bind_error (make_status_msg ps2 ''Overall'' ''Perf'' overall_perf_bf_count
                   OVERALL_PERF_BF_COUNT_THRESHOLD) (\<lambda>(l3, ps3).
     (case max_per_team_bf_counts bfs_report of
        (max_per_team_hot_bf_count, max_per_team_cold_bf_count, max_per_team_perf_bf_count) \<Rightarrow>
     bind_error (make_status_msg ps3 ''Max per Assigned Team'' ''Hot'' max_per_team_hot_bf_count
                   PER_TEAM_HOT_BF_COUNT_THRESHOLD) (\<lambda>(l4, ps4).
     bind_error (make_status_msg ps4 ''Max per Assigned Team'' ''Cold'' max_per_team_cold_bf_count
                   PER_TEAM_COLD_BF_COUNT_THRESHOLD) (\<lambda>(l5, ps5).
     bind_error (make_status_msg ps5 ''Max per Assigned Team'' ''Perf'' max_per_team_perf_bf_count
                   PER_TEAM_PERF_BF_COUNT_THRESHOLD) (\<lambda>(l6, ps6).
     Inr (\<lparr>table_of = bfs_report, count_lines = [l1, l2, l3, l4, l5, l6]\<rparr>, ps6)))))))))"

section \<open>Dates (\<open>datetime\<close>, \<open>timedelta\<close>)\<close>

text \<open>
  A \<open>datetime\<close> is a calendar day, numbered as \<open>date.toordinal()\<close> does (day 1 is
  0001-01-01, day 3652059 is 9999-12-31), and a time of day. All values are in UTC.
  Subtracting whole days moves the day number and raises outside the supported range.
\<close>

record datetime =
  ordinal :: int
  hour :: nat
  minute :: nat
  second :: nat
  microsecond :: nat

definition replace_midnight :: "datetime \<Rightarrow> datetime" where
  \<comment> \<open>\<open>.replace(hour=0, minute=0, second=0, microsecond=0, tzinfo=timezone.utc)\<close>\<close>
  "replace_midnight d = d\<lparr>hour := 0, minute := 0, second := 0, microsecond := 0\<rparr>"

definition sub_days :: "datetime \<Rightarrow> int \<Rightarrow> py_error + datetime" where
  \<comment> \<open>\<open>d - timedelta(days=n)\<close>\<close>
  "sub_days d n =
     (let day = ordinal d - n
      in if day < 1 \<or> 3652059 < day then Inl OverflowError else Inr (d\<lparr>ordinal := day\<rparr>))"

definition EVERGREEN_LOOKBACK_DAYS :: nat where "EVERGREEN_LOOKBACK_DAYS = 14"

section \<open>Evergreen task-status tallies\<close>

text \<open>
  Modelled from the spec: the value type \<open>TaskStatusCounts\<close> (\<open>evergreen_service.py\<close>):
  a project identifier and per-status task counts (the statuses other than succeeded and
  failed are pooled in one field); a tally constructed from a project alone has all counts
  zero; \<open>add\<close> sums field-wise and carries the receiver's project through.
\<close>

record TaskStatusCounts =
  project :: string
  succeeded :: int
  failed :: int
  other :: int

definition TaskStatusCounts_of_project :: "string \<Rightarrow> TaskStatusCounts" where
  \<comment> \<open>Modelled from the spec: \<open>TaskStatusCounts(project=name)\<close>, the identity of \<open>add\<close>\<close>
  "TaskStatusCounts_of_project name = \<lparr>project = name, succeeded = 0, failed = 0, other = 0\<rparr>"

definition add :: "TaskStatusCounts \<Rightarrow> TaskStatusCounts \<Rightarrow> TaskStatusCounts" where
  \<comment> \<open>Modelled from the spec: \<open>TaskStatusCounts.add\<close>, field-wise sums\<close>
  "add a b = \<lparr>project = project a, succeeded = succeeded a + succeeded b,
              failed = failed a + failed b, other = other a + other b\<rparr>"

section \<open>\<open>statistics.median\<close>\<close>

datatype pynum = PyInt int | PyFloat pyfloat

definition median :: "int list \<Rightarrow> py_error + pynum" where
  "median xs =
     (let data = sort xs; n = length data
      in if n = 0 then Inl StatisticsError
         else if n mod 2 = 1 then Inr (PyInt (data ! (n div 2)))
         else let i = n div 2
              in bind_error (py_truediv (data ! (i - 1) + data ! i) 2) (\<lambda>m. Inr (PyFloat m)))"

text \<open>
  The format specification \<open>.0f\<close> converts an \<open>int\<close> to \<open>float\<close> first, which raises
  \<open>OverflowError\<close> for an \<open>int\<close> outside the double range; a \<open>float\<close> is formatted as it is.
  The message keeps the number that is printed.
\<close>

definition format_0f :: "pynum \<Rightarrow> py_error + pynum" where
  "format_0f x =
     (case x of
        PyFloat f \<Rightarrow> Inr x
      | PyInt n \<Rightarrow> (case double_of_rat (of_int n) of
                     Finite r \<Rightarrow> Inr x
                   | _ \<Rightarrow> Inl OverflowError))"

section \<open>The status message, the log and the collaborators\<close>

record waterfall_status =
  between_start :: datetime
  between_end :: datetime
  median_lines :: "(string \<times> pynum) list"

record status_message =
  msg_repo :: string
  msg_branch :: string
  bf_status :: bf_count_status
  waterfall :: waterfall_status
  action :: verdict

text \<open>What \<open>LOGGER.info\<close> is called with, in order.\<close>

datatype log_entry =
    Info string
  | GettingBFs string
  | GotBFs nat
  | GettingWaterfall "string list" datetime datetime
  | DailyRedBoxCounts string "int list"
  | StatusLines status_message
  | NotifyingSlack string

text \<open>
  The external collaborators (\<open>EvergreenService\<close>, \<open>JiraService\<close>, the Evergreen API's
  Slack call, the clock) are parameters: each call either returns a value or raises.
  \<open>EVERGREEN_PROJECT\<close> is the constant \<open>JiraCustomFieldNames.EVERGREEN_PROJECT\<close>.
\<close>

record services =
  get_evg_project_info :: "string \<Rightarrow> string \<Rightarrow> py_error + EvgProjectsInfo"
  fetch_bfs :: "string \<Rightarrow> py_error + BfIssue list"
  get_waterfall_status :: "string list \<Rightarrow> datetime \<Rightarrow> datetime \<Rightarrow> py_error + TaskStatusCounts list"
  send_slack_message :: "string \<Rightarrow> status_message \<Rightarrow> py_error + unit"
  utcnow :: datetime
  EVERGREEN_PROJECT :: string

text \<open>
  A computation that logs: the entries logged so far and either the exception that ended
  it or its value.
\<close>

type_synonym 'a logged = "log_entry list \<times> (py_error + 'a)"

definition returns :: "'a \<Rightarrow> 'a logged" where
  "returns x = ([], Inr x)"

definition call :: "py_error + 'a \<Rightarrow> 'a logged" where
  "call r = ([], r)"

definition LOGGER_info :: "log_entry \<Rightarrow> unit logged" where
  "LOGGER_info entry = ([entry], Inr ())"

definition bind_logged :: "'a logged \<Rightarrow> ('a \<Rightarrow> 'b logged) \<Rightarrow> 'b logged" where
  "bind_logged m f =
     (case m of
        (entries, Inl e) \<Rightarrow> (entries, Inl e)
      | (entries, Inr x) \<Rightarrow> (case f x of (entries', r) \<Rightarrow> (entries @ entries', r)))"

section \<open>The Jira query and \<open>_make_bfs_report\<close>\<close>

definition JIRA_SERVER :: string where "JIRA_SERVER = ''https://jira.mongodb.org''"
definition DEFAULT_REPO :: string where "DEFAULT_REPO = ''10gen/mongo''"
definition DEFAULT_BRANCH :: string where "DEFAULT_BRANCH = ''master''"
definition SLACK_CHANNEL :: string where "SLACK_CHANNEL = ''#10gen-mongo-code-lockdown''"

fun join :: "string \<Rightarrow> string list \<Rightarrow> string" where
  "join sep [] = []"
| "join sep [x] = x"
| "join sep (x # y # ys) = x @ sep @ join sep (y # ys)"

definition iterable_to_jql :: "string list \<Rightarrow> string" where
  "iterable_to_jql entries = join '', '' (map (\<lambda>entry. [CHR 0x22] @ entry @ [CHR 0x22]) entries)"

text \<open>
  The three sets of the source. Python iterates a set of strings in an order that depends on
  the hash seed of the process; the lists below take the order in which the elements are
  written. The query is only logged and handed to the Jira collaborator, which is arbitrary
  here, so that no property below depends on this order.
\<close>

definition JIRA_PROJECTS :: "string list" where
  "JIRA_PROJECTS = [''Build Failures'']"

definition END_STATUSES :: "string list" where
  "END_STATUSES = [''Needs Triage'', ''Open'', ''In Progress'', ''Waiting for Bug Fix'']"

definition PRIORITIES :: "string list" where
  "PRIORITIES = [''Blocker - P1'', ''Critical - P2'', ''Major - P3'', ''Minor - P4'']"

definition ACTIVE_BFS_QUERY :: string where
  "ACTIVE_BFS_QUERY =
     ''project in ('' @ iterable_to_jql JIRA_PROJECTS @ '')''
     @ '' AND status in ('' @ iterable_to_jql END_STATUSES @ '')''
     @ '' AND priority in ('' @ iterable_to_jql PRIORITIES @ '')''"

definition make_bfs_report :: "services \<Rightarrow> EvgProjectsInfo \<Rightarrow> BFsReport logged" where
  "make_bfs_report svc evg_projects_info =
     (let query = ACTIVE_BFS_QUERY @ '' AND '' @ [CHR 0x22] @ EVERGREEN_PROJECT svc @ [CHR 0x22]
                  @ '' in ('' @ iterable_to_jql (active_project_names evg_projects_info) @ '')''
      in bind_logged (LOGGER_info (GettingBFs query)) (\<lambda>_.
         bind_logged (call (fetch_bfs svc query)) (\<lambda>active_bfs.
         bind_logged (LOGGER_info (GotBFs (length active_bfs))) (\<lambda>_.
         returns (fold (\<lambda>bf bfs_report. add_bf_data bfs_report bf evg_projects_info)
                       active_bfs BFsReport_empty)))))"

section \<open>The waterfall report\<close>

fun accumulate_builds :: "string \<Rightarrow> TaskStatusCounts list \<Rightarrow> TaskStatusCounts \<Rightarrow> TaskStatusCounts" where
  \<comment> \<open>the inner loop of \<open>_accumulate_project_statuses\<close>\<close>
  "accumulate_builds evg_project_name [] project_status = project_status"
| "accumulate_builds evg_project_name (build_status # build_statuses) project_status =
     accumulate_builds evg_project_name build_statuses
       (if project build_status = evg_project_name then add project_status build_status
        else project_status)"

fun accumulate_project_statuses :: "string list \<Rightarrow> TaskStatusCounts list \<Rightarrow> TaskStatusCounts list" where
  "accumulate_project_statuses [] build_statuses = []"
| "accumulate_project_statuses (evg_project_name # evg_project_names) build_statuses =
     accumulate_builds evg_project_name build_statuses (TaskStatusCounts_of_project evg_project_name)
     # accumulate_project_statuses evg_project_names build_statuses"

text \<open>A \<open>dict\<close> keeps its keys in insertion order: a list of pairs with distinct keys.\<close>

fun dict_set :: "'k \<Rightarrow> 'v \<Rightarrow> ('k \<times> 'v) list \<Rightarrow> ('k \<times> 'v) list" where
  "dict_set k v [] = [(k, v)]"
| "dict_set k v ((k', v') # d) = (if k' = k then (k', v) # d else (k', v') # dict_set k v d)"

fun dict_append :: "'k \<Rightarrow> 'v \<Rightarrow> ('k \<times> 'v list) list \<Rightarrow> py_error + ('k \<times> 'v list) list" where
  \<comment> \<open>\<open>d[k].append(x)\<close>\<close>
  "dict_append k x [] = Inl KeyError"
| "dict_append k x ((k', xs) # d) =
     (if k' = k then Inr ((k', xs @ [x]) # d)
      else bind_error (dict_append k x d) (\<lambda>d'. Inr ((k', xs) # d')))"

fun fill_report ::
  "TaskStatusCounts list \<Rightarrow> (string \<times> TaskStatusCounts list) list
     \<Rightarrow> py_error + (string \<times> TaskStatusCounts list) list" where
  "fill_report [] waterfall_report = Inr waterfall_report"
| "fill_report (task_status_count # task_status_counts) waterfall_report =
     bind_error (dict_append (project task_status_count) task_status_count waterfall_report)
       (fill_report task_status_counts)"

fun waterfall_days ::
  "services \<Rightarrow> string list \<Rightarrow> datetime \<Rightarrow> nat list \<Rightarrow> TaskStatusCounts list
     \<Rightarrow> TaskStatusCounts list logged" where
  "waterfall_days svc evg_project_names window_end [] task_status_counts =
     returns task_status_counts"
| "waterfall_days svc evg_project_names window_end (day # days) task_status_counts =
     bind_logged (call (sub_days window_end (int day))) (\<lambda>day_window_end.
     bind_logged (call (sub_days day_window_end 1)) (\<lambda>day_window_start.
     bind_logged (LOGGER_info (GettingWaterfall evg_project_names day_window_start day_window_end)) (\<lambda>_.
     bind_logged (call (get_waterfall_status svc evg_project_names day_window_start day_window_end))
       (\<lambda>waterfall_status.
     waterfall_days svc evg_project_names window_end days
       (task_status_counts @ accumulate_project_statuses evg_project_names waterfall_status)))))"

definition initial_report :: "string list \<Rightarrow> (string \<times> TaskStatusCounts list) list" where
  \<comment> \<open>\<open>{evg_project_name: [] for evg_project_name in evg_project_names}\<close>\<close>
  "initial_report evg_project_names =
     fold (\<lambda>evg_project_name d. dict_set evg_project_name [] d) evg_project_names []"

definition make_waterfall_report ::
  "services \<Rightarrow> string list \<Rightarrow> datetime \<Rightarrow> (string \<times> TaskStatusCounts list) list logged" where
  "make_waterfall_report svc evg_project_names window_end =
     bind_logged (waterfall_days svc evg_project_names window_end [0..<EVERGREEN_LOOKBACK_DAYS] [])
       (\<lambda>task_status_counts.
     call (fill_report task_status_counts (initial_report evg_project_names)))"

fun redness_lines ::
  "(string \<times> TaskStatusCounts list) list \<Rightarrow> (string \<times> pynum) list \<Rightarrow> (string \<times> pynum) list logged" where
  \<comment> \<open>the loop of \<open>_get_waterfall_redness_status\<close> over \<open>waterfall_report.items()\<close>\<close>
  "redness_lines [] lines = returns lines"
| "redness_lines ((evg_project_name, daily_task_status_counts) # items) lines =
     (let daily_per_project_red_box_counts = map failed daily_task_status_counts
      in bind_logged (LOGGER_info (DailyRedBoxCounts evg_project_name daily_per_project_red_box_counts))
           (\<lambda>_.
         bind_logged (call (median daily_per_project_red_box_counts)) (\<lambda>median_per_day_red_box_count.
         bind_logged (call (format_0f median_per_day_red_box_count)) (\<lambda>_.
         redness_lines items (lines @ [(evg_project_name, median_per_day_red_box_count)])))))"

definition get_waterfall_redness_status ::
  "(string \<times> TaskStatusCounts list) list \<Rightarrow> datetime \<Rightarrow> datetime \<Rightarrow> waterfall_status logged" where
  "get_waterfall_redness_status waterfall_report window_start window_end =
     bind_logged (redness_lines waterfall_report []) (\<lambda>lines.
     returns \<lparr>between_start = window_start, between_end = window_end, median_lines = lines\<rparr>)"

section \<open>\<open>evaluate_build_redness\<close>\<close>

definition dict_get :: "('k \<rightharpoonup> 'v) \<Rightarrow> 'k \<Rightarrow> py_error + 'v" where
  "dict_get m k = (case m k of None \<Rightarrow> Inl KeyError | Some v \<Rightarrow> Inr v)"

text \<open>
  The function is modelled in two parts: the computation of the status message (up to and
  including the \<open>if\<close>/\<open>elif\<close>/\<open>else\<close> that adds the action line), and the tail that
  logs the message and notifies Slack.
\<close>

definition build_status_message :: "services \<Rightarrow> string \<Rightarrow> string \<Rightarrow> status_message logged" where
  "build_status_message svc repo branch =
     bind_logged (LOGGER_info (Info ''Getting Evergreen projects data'')) (\<lambda>_.
     bind_logged (call (get_evg_project_info svc repo branch)) (\<lambda>evg_projects_info.
     bind_logged (call (dict_get (branch_to_projects_map evg_projects_info) branch)) (\<lambda>evg_project_names.
     bind_logged (LOGGER_info (Info ''Got Evergreen projects data'')) (\<lambda>_.
     bind_logged (make_bfs_report svc evg_projects_info) (\<lambda>bfs_report.
     bind_logged (call (get_bf_counts_status bfs_report)) (\<lambda>(bf_count_status_msg, bf_count_percentages).
     let threshold_percentages = [] @ bf_count_percentages in
     bind_logged (call (sub_days (replace_midnight (utcnow svc)) 1)) (\<lambda>window_end.
     bind_logged (call (sub_days window_end (int EVERGREEN_LOOKBACK_DAYS))) (\<lambda>window_start.
     bind_logged (make_waterfall_report svc evg_project_names window_end) (\<lambda>waterfall_report.
     bind_logged (get_waterfall_redness_status waterfall_report window_start window_end)
       (\<lambda>waterfall_failure_rate_status_msg.
     returns \<lparr>msg_repo = repo, msg_branch = branch, bf_status = bf_count_status_msg,
              waterfall = waterfall_failure_rate_status_msg,
              action = action_of_percentages threshold_percentages\<rparr>))))))))))"

definition evaluate_build_redness :: "services \<Rightarrow> string \<Rightarrow> string \<Rightarrow> bool \<Rightarrow> unit logged" where
  "evaluate_build_redness svc repo branch notify =
     bind_logged (build_status_message svc repo branch) (\<lambda>status_message.
     bind_logged (LOGGER_info (StatusLines status_message)) (\<lambda>_.
     if notify
     then bind_logged (LOGGER_info (NotifyingSlack SLACK_CHANNEL)) (\<lambda>_.
          call (send_slack_message svc SLACK_CHANNEL status_message))
     else returns ()))"

section \<open>Notions used to state the properties\<close>

text \<open>Midnight of a day, and the \<open>d\<close>-th one-day window before \<open>window_end\<close>.\<close>

definition midnight :: "int \<Rightarrow> datetime" where
  "midnight day = \<lparr>ordinal = day, hour = 0, minute = 0, second = 0, microsecond = 0\<rparr>"

definition sub_window :: "datetime \<Rightarrow> nat \<Rightarrow> datetime \<times> datetime" where
  "sub_window window_end d =
     (window_end\<lparr>ordinal := ordinal window_end - (int d + 1)\<rparr>,
      window_end\<lparr>ordinal := ordinal window_end - int d\<rparr>)"

text \<open>The windows of the Evergreen queries and the status messages found in a log.\<close>

fun logged_windows :: "log_entry list \<Rightarrow> (datetime \<times> datetime) list" where
  "logged_windows [] = []"
| "logged_windows (GettingWaterfall names window_start window_end # entries) =
     (window_start, window_end) # logged_windows entries"
| "logged_windows (_ # entries) = logged_windows entries"

fun logged_status_messages :: "log_entry list \<Rightarrow> status_message list" where
  "logged_status_messages [] = []"
| "logged_status_messages (StatusLines m # entries) = m # logged_status_messages entries"
| "logged_status_messages (_ # entries) = logged_status_messages entries"

text \<open>The tally of one project for one day: the fold of the builds of that project.\<close>

definition tally_of_matching_builds :: "string \<Rightarrow> TaskStatusCounts list \<Rightarrow> TaskStatusCounts" where
  "tally_of_matching_builds name builds =
     fold (\<lambda>b s. add s b) (filter (\<lambda>b. project b = name) builds) (TaskStatusCounts_of_project name)"

section \<open>Sample data\<close>

definition bf_hot :: "string \<Rightarrow> string \<Rightarrow> BfIssue" where
  "bf_hot k team = \<lparr>key = k, assigned_team = Some team, test_type = CORRECTNESS,
                    temperature = HOT, evergreen_projects = [''mongodb-mongo-master'']\<rparr>"

definition bf_unclassified :: BfIssue where
  "bf_unclassified = \<lparr>key = ''BF-4'', assigned_team = None, test_type = CORRECTNESS,
                      temperature = NONE, evergreen_projects = [''mongodb-mongo-master'']\<rparr>"

definition info_master :: EvgProjectsInfo where
  "info_master = \<lparr>branch_to_projects_map = [''master'' \<mapsto> [''mongodb-mongo-master'']],
                  active_project_names = [''mongodb-mongo-master'']\<rparr>"

definition info_no_projects :: EvgProjectsInfo where
  "info_no_projects = \<lparr>branch_to_projects_map = [''master'' \<mapsto> []], active_project_names = []\<rparr>"

definition build_red :: TaskStatusCounts where
  "build_red = \<lparr>project = ''mongodb-mongo-master'', succeeded = 10, failed = 7, other = 0\<rparr>"

text \<open>
  Three sets of collaborators, on 2024-06-15 (day 739052): a branch without projects, a
  branch with one project and no failed task, and the same with seven failed tasks a day.
\<close>

definition svc_quiet :: services where
  "svc_quiet =
     \<lparr>get_evg_project_info = (\<lambda>repo branch. Inr info_no_projects),
      fetch_bfs = (\<lambda>query. Inr []),
      get_waterfall_status = (\<lambda>evg_project_names window_start window_end. Inr []),
      send_slack_message = (\<lambda>target msg. Inr ()),
      utcnow = \<lparr>ordinal = 739052, hour = 12, minute = 30, second = 15, microsecond = 250000\<rparr>,
      EVERGREEN_PROJECT = ''Evergreen Project''\<rparr>"

definition svc_one :: services where
  "svc_one =
     \<lparr>get_evg_project_info = (\<lambda>repo branch. Inr info_master),
      fetch_bfs = (\<lambda>query. Inr []),
      get_waterfall_status = (\<lambda>evg_project_names window_start window_end. Inr []),
      send_slack_message = (\<lambda>target msg. Inr ()),
      utcnow = \<lparr>ordinal = 739052, hour = 12, minute = 30, second = 15, microsecond = 250000\<rparr>,
      EVERGREEN_PROJECT = ''Evergreen Project''\<rparr>"

definition svc_red :: services where
  "svc_red = svc_one\<lparr>get_waterfall_status :=
                        (\<lambda>evg_project_names window_start window_end. Inr [build_red])\<rparr>"


section \<open>Rounding to a double: bounds and monotonicity\<close>

lemma pow2_less_cancel:
  assumes "(2::rat) powi m < 2 powi n"
  shows "m < n"
proof (rule ccontr)
  assume "\<not> m < n"
  then have "(2::rat) powi n \<le> 2 powi m"
    by (intro power_int_increasing) auto
  with assms show False by simp
qed

lemma ilog2_bounds:
  assumes "0 < x"
  shows "2 powi ilog2 x \<le> x \<and> x < 2 powi (ilog2 x + 1)"
proof -
  obtain p q where pq: "quotient_of x = (p, q)" by (cases "quotient_of x")
  have q: "0 < q" using pq by (rule quotient_of_denom_pos)
  have x: "x = of_int p / of_int q" using pq by (rule quotient_of_div)
  have p: "0 < p" using assms q x by (simp add: zero_less_divide_iff)
  define d where "d = bitlen p - bitlen q"
  have lp: "1 \<le> bitlen p" using p by (simp add: bitlen_alt_def)
  have lq: "1 \<le> bitlen q" using q by (simp add: bitlen_alt_def)
  have "rat_of_int (2 ^ nat (bitlen p - 1)) \<le> of_int p"
    using bitlen_bounds[OF p] by (simp only: of_int_le_iff)
  then have rp1: "(2::rat) powi (bitlen p - 1) \<le> of_int p"
    using lp by (simp add: power_int_nonneg_exp)
  have "rat_of_int p < of_int (2 ^ nat (bitlen p))"
    using bitlen_bounds[OF p] by (simp only: of_int_less_iff)
  then have rp2: "of_int p < (2::rat) powi bitlen p"
    using lp by (simp add: power_int_nonneg_exp)
  have "rat_of_int (2 ^ nat (bitlen q - 1)) \<le> of_int q"
    using bitlen_bounds[OF q] by (simp only: of_int_le_iff)
  then have rq1: "(2::rat) powi (bitlen q - 1) \<le> of_int q"
    using lq by (simp add: power_int_nonneg_exp)
  have "rat_of_int q < of_int (2 ^ nat (bitlen q))"
    using bitlen_bounds[OF q] by (simp only: of_int_less_iff)
  then have rq2: "of_int q < (2::rat) powi bitlen q"
    using lq by (simp add: power_int_nonneg_exp)
  have qpos: "(0::rat) < of_int q" using q by simp
  have e1: "(2::rat) powi (d + 1) * 2 powi (bitlen q - 1) = 2 powi bitlen p"
    by (simp add: d_def power_int_add[symmetric])
  have e2: "(2::rat) powi (d - 1) * 2 powi bitlen q = 2 powi (bitlen p - 1)"
    by (simp add: d_def power_int_add[symmetric])
  have "of_int p < (2::rat) powi (d + 1) * 2 powi (bitlen q - 1)"
    using rp2 e1 by simp
  also have "\<dots> \<le> 2 powi (d + 1) * of_int q"
    using rq1 by (simp add: mult_left_mono)
  finally have up: "x < 2 powi (d + 1)"
    using qpos by (simp add: x pos_divide_less_eq)
  have "(2::rat) powi (d - 1) * of_int q \<le> 2 powi (d - 1) * 2 powi bitlen q"
    using rq2 by (simp add: mult_left_mono)
  also have "\<dots> \<le> of_int p" using rp1 e2 by simp
  finally have lo: "2 powi (d - 1) \<le> x"
    using qpos by (simp add: x pos_le_divide_eq)
  show ?thesis
    using up lo pq by (auto simp: ilog2_def Let_def d_def)
qed

lemma ilog2_eqI:
  assumes "0 < x" "2 powi k \<le> x" "x < 2 powi (k + 1)"
  shows "ilog2 x = k"
proof -
  have b: "2 powi ilog2 x \<le> x" "x < 2 powi (ilog2 x + 1)"
    using ilog2_bounds[OF assms(1)] by auto
  have "(2::rat) powi k < 2 powi (ilog2 x + 1)" using assms(2) b(2) by simp
  then have 1: "k < ilog2 x + 1" by (rule pow2_less_cancel)
  have "(2::rat) powi ilog2 x < 2 powi (k + 1)" using assms(3) b(1) by simp
  then have 2: "ilog2 x < k + 1" by (rule pow2_less_cancel)
  show ?thesis using 1 2 by simp
qed


lemma round_half_even_floor:
  "\<lfloor>x\<rfloor> \<le> round_half_even x \<and> round_half_even x \<le> \<lfloor>x\<rfloor> + 1"
  by (simp add: round_half_even_def Let_def)

lemma round_half_even_of_int [simp]: "round_half_even (of_int n) = n"
  by (simp add: round_half_even_def Let_def)


lemma round_half_even_mono:
  assumes "x \<le> y"
  shows "round_half_even x \<le> round_half_even y"
proof (cases "\<lfloor>x\<rfloor> = \<lfloor>y\<rfloor>")
  case True
  have "x - of_int \<lfloor>x\<rfloor> \<le> y - of_int \<lfloor>y\<rfloor>" using assms True by simp
  then show ?thesis using True
    by (auto simp: round_half_even_def Let_def)
next
  case False
  have "\<lfloor>x\<rfloor> \<le> \<lfloor>y\<rfloor>" using assms by (rule floor_mono)
  then have "\<lfloor>x\<rfloor> + 1 \<le> \<lfloor>y\<rfloor>" using False by simp
  then show ?thesis
    using round_half_even_floor[of x] round_half_even_floor[of y] by linarith
qed

lemma round_double_pos_unfold:
  "x \<noteq> 0 \<Longrightarrow> round_double x =
     of_int (round_half_even (x / 2 powi double_exponent x)) * 2 powi double_exponent x"
  by (simp add: round_double_def Let_def)





lemma round_double_nonneg:
  assumes "0 \<le> x"
  shows "0 \<le> round_double x"
proof (cases "x = 0")
  case True
  then show ?thesis by (simp add: round_double_def)
next
  case False
  then have "0 < x" using assms by simp
  have "(0::rat) \<le> x / 2 powi double_exponent x" using assms by simp
  then have "round_half_even 0 \<le> round_half_even (x / 2 powi double_exponent x)"
    by (rule round_half_even_mono)
  then have "0 \<le> round_half_even (x / 2 powi double_exponent x)"
    using round_half_even_of_int[of 0] by simp
  then show ?thesis using False by (simp add: round_double_pos_unfold)
qed



lemma round_double_normal:
  assumes "0 < x" "2 powi k \<le> x" "x < 2 powi (k + 1)" "- 1022 \<le> k"
  shows "round_double x = of_int (round_half_even (x / 2 powi (k - 52))) * 2 powi (k - 52)"
proof -
  have "ilog2 x = k" using assms(1-3) by (rule ilog2_eqI)
  then have "double_exponent x = k - 52" using assms by (simp add: double_exponent_def)
  then show ?thesis using assms(1) by (simp add: round_double_pos_unfold)
qed


section \<open>Sequencing lemmas\<close>

lemma py_any_iff: "py_any P xs \<longleftrightarrow> (\<exists>x \<in> set xs. P x)"
  by (induction xs) auto

lemma py_all_iff: "py_all P xs \<longleftrightarrow> (\<forall>x \<in> set xs. P x)"
  by (induction xs) auto

lemma bind_error_Inr_iff:
  "bind_error m f = Inr y \<longleftrightarrow> (\<exists>x. m = Inr x \<and> f x = Inr y)"
  by (cases m) (simp_all add: bind_error_def)

lemma bind_error_Inl_iff:
  "bind_error m f = Inl e \<longleftrightarrow> m = Inl e \<or> (\<exists>x. m = Inr x \<and> f x = Inl e)"
  by (cases m) (simp_all add: bind_error_def)

lemma py_truediv_error:
  assumes "b \<noteq> 0" "py_truediv a b = Inl e"
  shows "e = OverflowError"
  using assms by (auto simp: py_truediv_def split: pyfloat.splits)

lemma percentage_of_error:
  assumes "threshold \<noteq> 0" "percentage_of bf_count threshold = Inl e"
  shows "e = OverflowError"
  using assms py_truediv_error[of threshold bf_count e]
  by (auto simp: percentage_of_def bind_error_Inl_iff)

lemma make_status_msg_error:
  assumes "threshold \<noteq> 0" "make_status_msg ps scope bf_type bf_count threshold = Inl e"
  shows "e = OverflowError"
  using assms percentage_of_error[of threshold bf_count e]
  by (auto simp: make_status_msg_def bind_error_Inl_iff)

lemma make_status_msg_Inr:
  assumes "make_status_msg ps scope bf_type bf_count threshold = Inr (l, ps')"
  shows "line_scope l = scope \<and> line_bf_type l = bf_type \<and> line_bf_count l = bf_count
         \<and> line_threshold l = threshold
         \<and> percentage_of bf_count threshold = Inr (line_percentage l)
         \<and> ps' = ps @ [line_percentage l]"
  using assms by (auto simp: make_status_msg_def bind_error_Inr_iff)

lemmas threshold_defs =
  OVERALL_HOT_BF_COUNT_THRESHOLD_def OVERALL_COLD_BF_COUNT_THRESHOLD_def
  OVERALL_PERF_BF_COUNT_THRESHOLD_def PER_TEAM_HOT_BF_COUNT_THRESHOLD_def
  PER_TEAM_COLD_BF_COUNT_THRESHOLD_def PER_TEAM_PERF_BF_COUNT_THRESHOLD_def

lemma get_bf_counts_status_error:
  assumes "get_bf_counts_status r = Inl e"
  shows "e = OverflowError"
proof -
  obtain oh oc op where o: "overall_bf_counts r = (oh, oc, op)"
    by (cases "overall_bf_counts r") auto
  obtain mh mc mp where m: "max_per_team_bf_counts r = (mh, mc, mp)"
    by (cases "max_per_team_bf_counts r") auto
  have ms: "\<And>ps scope bf_type bf_count threshold.
      make_status_msg ps scope bf_type bf_count threshold = Inl e \<Longrightarrow> threshold \<noteq> 0
        \<Longrightarrow> e = OverflowError"
    by (rule make_status_msg_error)
  show ?thesis
    using assms unfolding get_bf_counts_status_def o m threshold_defs
    by (auto simp: bind_error_Inl_iff dest: ms)
qed

lemma get_bf_counts_status_Inr:
  assumes "get_bf_counts_status r = Inr (msg, ps)"
  shows "table_of msg = r
     \<and> map line_scope (count_lines msg) =
         [''Overall'', ''Overall'', ''Overall'', ''Max per Assigned Team'',
          ''Max per Assigned Team'', ''Max per Assigned Team'']
     \<and> map line_bf_type (count_lines msg) = [''Hot'', ''Cold'', ''Perf'', ''Hot'', ''Cold'', ''Perf'']
     \<and> map line_threshold (count_lines msg) = [30, 100, 30, 7, 20, 10]
     \<and> map line_bf_count (count_lines msg) =
         (case (overall_bf_counts r, max_per_team_bf_counts r) of
            ((oh, oc, op), (mh, mc, mp)) \<Rightarrow> [oh, oc, op, mh, mc, mp])
     \<and> ps = map line_percentage (count_lines msg)
     \<and> (\<forall>l \<in> set (count_lines msg).
           percentage_of (line_bf_count l) (line_threshold l) = Inr (line_percentage l))"
proof -
  obtain oh oc op where o: "overall_bf_counts r = (oh, oc, op)"
    by (cases "overall_bf_counts r") auto
  obtain mh mc mp where m: "max_per_team_bf_counts r = (mh, mc, mp)"
    by (cases "max_per_team_bf_counts r") auto
  show ?thesis
    using assms unfolding get_bf_counts_status_def o m threshold_defs
    by (auto simp: bind_error_Inr_iff dest!: make_status_msg_Inr)
qed

section \<open>The percentage of a threshold\<close>


lemma double_of_rat_nonneg:
  assumes "0 \<le> x"
  shows "double_of_rat x = PosInf \<or> (\<exists>r. double_of_rat x = Finite r \<and> r = round_double x \<and> 0 \<le> r)"
proof -
  have "0 \<le> round_double x" using assms by (rule round_double_nonneg)
  moreover have "(0::rat) < 2 ^ 1024" by simp
  ultimately show ?thesis
    by (auto simp: double_of_rat_def Let_def simp del: zero_less_power)
qed

lemma py_truediv_nonneg:
  assumes "0 < T" "0 \<le> C"
  shows "py_truediv C T = Inl OverflowError
         \<or> py_truediv C T = Inr (Finite (round_double (of_int C / of_int T)))"
  using assms double_of_rat_nonneg[of "of_int C / of_int T"]
  by (auto simp: py_truediv_def)


lemma percentage_of_nonneg:
  assumes "0 < T" "0 \<le> C"
  shows "percentage_of C T = Inl OverflowError
         \<or> percentage_of C T = Inr (double_of_rat (round_double (of_int C / of_int T) * 100))"
  using py_truediv_nonneg[OF assms]
  by (auto simp: percentage_of_def bind_error_def)





lemma round_double_7: "round_double 7 = 7"
proof -
  have "round_double 7 = of_int (round_half_even (7 / 2 powi (2 - 52))) * 2 powi (2 - 52)"
    by (rule round_double_normal) simp_all
  also have "(7 :: rat) / 2 powi (2 - 52) = of_int 7881299347898368" by simp
  finally show ?thesis by (simp only: round_half_even_of_int) simp
qed

lemma double_of_rat_small:
  assumes "round_double x = r" "r < 2 ^ 1024" "- (2 ^ 1024) < r"
  shows "double_of_rat x = Finite r"
  using assms by (simp add: double_of_rat_def Let_def not_le)




lemma percentage_of_0: "T \<noteq> 0 \<Longrightarrow> percentage_of 0 T = Inr (Finite 0)"
  by (simp add: percentage_of_def bind_error_def py_truediv_def double_of_rat_def round_double_def)











section \<open>The verdict\<close>

text \<open>
  Claim C1. For every list of threshold percentages the verdict is RED if some percentage
  is strictly greater than 100; otherwise GREEN if all percentages are strictly less than
  50; otherwise YELLOW. RED is tested first, and a percentage of exactly 100 does not
  trigger RED.
\<close>

theorem C1_verdict_rule:
  "action_of_percentages ps =
     (if (\<exists>p \<in> set ps. float_gt_int p 100) then RED
      else if (\<forall>p \<in> set ps. float_lt_int p 50) then GREEN
      else YELLOW)
   \<and> \<not> float_gt_int (Finite 100) 100"
  by (simp add: action_of_percentages_def py_any_iff py_all_iff)

text \<open>The five lists of the specification, and a RED that overrides two zero percentages.\<close>

theorem C1_verdict_rule_witness:
  "action_of_percentages [Finite 101, Finite 10, Finite 10] = RED
   \<and> action_of_percentages [Finite 10, Finite 10, Finite 10] = GREEN
   \<and> action_of_percentages [Finite 60, Finite 10, Finite 10] = YELLOW
   \<and> action_of_percentages [Finite 100, Finite 10, Finite 10] = YELLOW
   \<and> action_of_percentages [Finite 0, Finite 0, Finite 0] = GREEN
   \<and> action_of_percentages [Finite 101, Finite 0, Finite 0] = RED"
  using C1_verdict_rule[of "[Finite 101, Finite 10, Finite 10]"]
        C1_verdict_rule[of "[Finite 10, Finite 10, Finite 10]"]
        C1_verdict_rule[of "[Finite 60, Finite 10, Finite 10]"]
        C1_verdict_rule[of "[Finite 100, Finite 10, Finite 10]"]
        C1_verdict_rule[of "[Finite 0, Finite 0, Finite 0]"]
        C1_verdict_rule[of "[Finite 101, Finite 0, Finite 0]"]
  by simp


section \<open>The threshold table\<close>

lemma max_per_team_bf_counts_empty: "max_per_team_bf_counts BFsReport_empty = (0, 0, 0)"
  by (simp add: max_per_team_bf_counts_def BFsReport_empty_def)

lemma overall_bf_counts_empty: "overall_bf_counts BFsReport_empty = (0, 0, 0)"
  by (simp add: overall_bf_counts_def get_bf_count_def BFsReport_empty_def)

lemma make_status_msg_0:
  "threshold \<noteq> 0 \<Longrightarrow> make_status_msg ps scope bf_type 0 threshold =
     Inr (\<lparr>line_scope = scope, line_bf_type = bf_type, line_bf_count = 0,
           line_percentage = Finite 0, line_threshold = threshold\<rparr>, ps @ [Finite 0])"
  by (simp add: make_status_msg_def percentage_of_0 bind_error_def)

lemma get_bf_counts_status_empty:
  "get_bf_counts_status BFsReport_empty =
     Inr (\<lparr>table_of = BFsReport_empty,
           count_lines =
             [\<lparr>line_scope = ''Overall'', line_bf_type = ''Hot'', line_bf_count = 0,
               line_percentage = Finite 0, line_threshold = 30\<rparr>,
              \<lparr>line_scope = ''Overall'', line_bf_type = ''Cold'', line_bf_count = 0,
               line_percentage = Finite 0, line_threshold = 100\<rparr>,
              \<lparr>line_scope = ''Overall'', line_bf_type = ''Perf'', line_bf_count = 0,
               line_percentage = Finite 0, line_threshold = 30\<rparr>,
              \<lparr>line_scope = ''Max per Assigned Team'', line_bf_type = ''Hot'', line_bf_count = 0,
               line_percentage = Finite 0, line_threshold = 7\<rparr>,
              \<lparr>line_scope = ''Max per Assigned Team'', line_bf_type = ''Cold'', line_bf_count = 0,
               line_percentage = Finite 0, line_threshold = 20\<rparr>,
              \<lparr>line_scope = ''Max per Assigned Team'', line_bf_type = ''Perf'', line_bf_count = 0,
               line_percentage = Finite 0, line_threshold = 10\<rparr>]\<rparr>,
          [Finite 0, Finite 0, Finite 0, Finite 0, Finite 0, Finite 0])"
  unfolding get_bf_counts_status_def overall_bf_counts_empty max_per_team_bf_counts_empty
    threshold_defs
  by (simp add: make_status_msg_0 bind_error_def)

text \<open>
  Claim C4. The six percentage computations use the thresholds of the table (overall 30,
  100, 30; per team 7, 20, 10), each of them positive, so that on no report the
  computation fails with a division by zero.
\<close>

theorem C4_thresholds_positive:
  "OVERALL_HOT_BF_COUNT_THRESHOLD = 30 \<and> OVERALL_COLD_BF_COUNT_THRESHOLD = 100
   \<and> OVERALL_PERF_BF_COUNT_THRESHOLD = 30 \<and> PER_TEAM_HOT_BF_COUNT_THRESHOLD = 7
   \<and> PER_TEAM_COLD_BF_COUNT_THRESHOLD = 20 \<and> PER_TEAM_PERF_BF_COUNT_THRESHOLD = 10
   \<and> get_bf_counts_status bfs_report \<noteq> Inl ZeroDivisionError
   \<and> (\<forall>msg percentages. get_bf_counts_status bfs_report = Inr (msg, percentages) \<longrightarrow>
         map (\<lambda>l. (line_scope l, line_bf_type l, line_threshold l)) (count_lines msg) =
           [(''Overall'', ''Hot'', OVERALL_HOT_BF_COUNT_THRESHOLD),
            (''Overall'', ''Cold'', OVERALL_COLD_BF_COUNT_THRESHOLD),
            (''Overall'', ''Perf'', OVERALL_PERF_BF_COUNT_THRESHOLD),
            (''Max per Assigned Team'', ''Hot'', PER_TEAM_HOT_BF_COUNT_THRESHOLD),
            (''Max per Assigned Team'', ''Cold'', PER_TEAM_COLD_BF_COUNT_THRESHOLD),
            (''Max per Assigned Team'', ''Perf'', PER_TEAM_PERF_BF_COUNT_THRESHOLD)]
         \<and> percentages = map line_percentage (count_lines msg)
         \<and> (\<forall>l \<in> set (count_lines msg).
               0 < line_threshold l
               \<and> percentage_of (line_bf_count l) (line_threshold l) = Inr (line_percentage l)))"
proof -
  have "get_bf_counts_status bfs_report \<noteq> Inl ZeroDivisionError"
    using get_bf_counts_status_error[of bfs_report ZeroDivisionError] by auto
  moreover have "map (\<lambda>l. (line_scope l, line_bf_type l, line_threshold l)) (count_lines msg) =
           [(''Overall'', ''Hot'', 30), (''Overall'', ''Cold'', 100), (''Overall'', ''Perf'', 30),
            (''Max per Assigned Team'', ''Hot'', 7), (''Max per Assigned Team'', ''Cold'', 20),
            (''Max per Assigned Team'', ''Perf'', 10)]
         \<and> percentages = map line_percentage (count_lines msg)
         \<and> (\<forall>l \<in> set (count_lines msg).
               0 < line_threshold l
               \<and> percentage_of (line_bf_count l) (line_threshold l) = Inr (line_percentage l))"
    if h: "get_bf_counts_status bfs_report = Inr (msg, percentages)" for msg percentages
  proof -
    obtain l1 l2 l3 l4 l5 l6 where l: "count_lines msg = [l1, l2, l3, l4, l5, l6]"
      using get_bf_counts_status_Inr[OF h]
      by (auto simp: map_eq_Cons_conv)
    show ?thesis using get_bf_counts_status_Inr[OF h] unfolding l by auto
  qed
  ultimately show ?thesis unfolding threshold_defs by blast
qed

text \<open>
  The empty report: the six lines carry the six thresholds and no division fails.
\<close>

theorem C4_thresholds_positive_witness:
  "get_bf_counts_status BFsReport_empty \<noteq> Inl ZeroDivisionError
   \<and> (\<exists>msg percentages. get_bf_counts_status BFsReport_empty = Inr (msg, percentages)
         \<and> map line_threshold (count_lines msg) = [30, 100, 30, 7, 20, 10]
         \<and> (\<forall>l \<in> set (count_lines msg). 0 < line_threshold l))"
  using C4_thresholds_positive[of BFsReport_empty] get_bf_counts_status_empty
  by simp

section \<open>Counting tickets by category and team\<close>

lemma max_per_team_loop_fold:
  "max_per_team_loop r teams (h, c, p) =
     (fold max (map (\<lambda>team. get_bf_count r [CORRECTNESS] [HOT] (Some team)) teams) h,
      fold max (map (\<lambda>team. get_bf_count r [CORRECTNESS] [COLD, NONE] (Some team)) teams) c,
      fold max (map (\<lambda>team. get_bf_count r [PERFORMANCE] [HOT, COLD, NONE] (Some team)) teams) p)"
proof (induction teams arbitrary: h c p)
  case Nil
  show ?case by simp
next
  case (Cons team teams)
  show ?case by (simp add: Cons.IH Let_def max_def)
qed

lemma fold_max_Max:
  fixes h :: int
  shows "fold max (map f teams) h = Max (insert h (f ` set teams))"
  using Max.set_eq_fold[of h "map f teams"] by simp

lemma get_bf_count_no_tickets:
  "bfs r = [] \<Longrightarrow> get_bf_count r test_types bf_temperatures team = 0"
  by (simp add: get_bf_count_def)

text \<open>
  Claim C5. For each of the three categories the per-team figure is the maximum, over the
  teams in the report's set of assigned teams, of the category's count restricted to the
  team (a maximum, not a sum); with no tickets each maximum is 0. These maxima are the
  counts of the three per-team lines of the status.
\<close>

theorem C5_max_per_team:
  "max_per_team_bf_counts bfs_report =
     (Max (insert 0 ((\<lambda>team. get_bf_count bfs_report [CORRECTNESS] [HOT] (Some team))
                       ` set (all_assigned_teams bfs_report))),
      Max (insert 0 ((\<lambda>team. get_bf_count bfs_report [CORRECTNESS] [COLD, NONE] (Some team))
                       ` set (all_assigned_teams bfs_report))),
      Max (insert 0 ((\<lambda>team. get_bf_count bfs_report [PERFORMANCE] [HOT, COLD, NONE] (Some team))
                       ` set (all_assigned_teams bfs_report))))
   \<and> (bfs bfs_report = [] \<longrightarrow> max_per_team_bf_counts bfs_report = (0, 0, 0))
   \<and> (\<forall>msg percentages. get_bf_counts_status bfs_report = Inr (msg, percentages) \<longrightarrow>
         (case max_per_team_bf_counts bfs_report of
            (mh, mc, mp) \<Rightarrow> map line_bf_count (drop 3 (count_lines msg)) = [mh, mc, mp]))"
proof -
  have "(case max_per_team_bf_counts bfs_report of
            (mh, mc, mp) \<Rightarrow> map line_bf_count (drop 3 (count_lines msg)) = [mh, mc, mp])"
    if h: "get_bf_counts_status bfs_report = Inr (msg, percentages)" for msg percentages
  proof -
    obtain l1 l2 l3 l4 l5 l6 where l: "count_lines msg = [l1, l2, l3, l4, l5, l6]"
      using get_bf_counts_status_Inr[OF h] by (auto simp: map_eq_Cons_conv)
    show ?thesis using get_bf_counts_status_Inr[OF h] unfolding l
      by (auto split: prod.splits)
  qed
  moreover have "max_per_team_bf_counts bfs_report = (0, 0, 0)" if "bfs bfs_report = []"
    using that
    by (cases "all_assigned_teams bfs_report = []")
       (simp_all add: max_per_team_bf_counts_def max_per_team_loop_fold fold_max_Max
          get_bf_count_no_tickets)
  ultimately show ?thesis
    by (simp add: max_per_team_bf_counts_def max_per_team_loop_fold fold_max_Max)
qed

text \<open>
  One hot ticket for team \<open>a\<close> and two for team \<open>b\<close>: the per-team figure is 2, the
  overall count 3. For the empty report the three per-team lines show 0.
\<close>

theorem C5_max_per_team_witness:
  "max_per_team_bf_counts
     \<lparr>bfs = [bf_hot ''BF-1'' ''a'', bf_hot ''BF-2'' ''b'', bf_hot ''BF-3'' ''b''],
      all_assigned_teams = [''a'', ''b'']\<rparr> = (2, 0, 0)
   \<and> overall_bf_counts
     \<lparr>bfs = [bf_hot ''BF-1'' ''a'', bf_hot ''BF-2'' ''b'', bf_hot ''BF-3'' ''b''],
      all_assigned_teams = [''a'', ''b'']\<rparr> = (3, 0, 0)
   \<and> bfs BFsReport_empty = [] \<and> max_per_team_bf_counts BFsReport_empty = (0, 0, 0)
   \<and> (\<exists>msg percentages. get_bf_counts_status BFsReport_empty = Inr (msg, percentages)
         \<and> map line_bf_count (drop 3 (count_lines msg)) = [0, 0, 0])"
proof -
  have "max_per_team_bf_counts
     \<lparr>bfs = [bf_hot ''BF-1'' ''a'', bf_hot ''BF-2'' ''b'', bf_hot ''BF-3'' ''b''],
      all_assigned_teams = [''a'', ''b'']\<rparr> = (2, 0, 0)"
    using C5_max_per_team[of "\<lparr>bfs = [bf_hot ''BF-1'' ''a'', bf_hot ''BF-2'' ''b'',
        bf_hot ''BF-3'' ''b''], all_assigned_teams = [''a'', ''b'']\<rparr>"]
    by (simp add: get_bf_count_def bf_matches_def bf_hot_def team_of_def)
  moreover have "bfs BFsReport_empty = []" by (simp add: BFsReport_empty_def)
  moreover from this have "max_per_team_bf_counts BFsReport_empty = (0, 0, 0)"
    using C5_max_per_team[of BFsReport_empty] by blast
  moreover from this have "\<exists>msg percentages.
        get_bf_counts_status BFsReport_empty = Inr (msg, percentages)
         \<and> map line_bf_count (drop 3 (count_lines msg)) = [0, 0, 0]"
    using C5_max_per_team[of BFsReport_empty] get_bf_counts_status_empty by simp
  ultimately show ?thesis
    by (simp add: overall_bf_counts_def get_bf_count_def bf_matches_def bf_hot_def)
qed

lemma get_bf_count_add_bf_data:
  assumes "py_any (\<lambda>p. p \<in> set (active_project_names info)) (evergreen_projects bf)"
  shows "get_bf_count (add_bf_data r bf info) test_types bf_temperatures team =
           get_bf_count r test_types bf_temperatures team
           + (if bf_matches test_types bf_temperatures team bf then 1 else 0)"
  using assms by (simp add: get_bf_count_def add_bf_data_def)

text \<open>
  Claim C6. A ticket with test type CORRECTNESS and temperature NONE satisfies the filter
  of the Cold+Unclassified category and neither the Hot nor the Performance filter, with
  or without a team restriction: ingesting it raises the cold count by one (overall and
  for its own team) and leaves the hot and performance counts unchanged.
\<close>

theorem C6_unclassified_counted_cold_only:
  assumes "test_type bf = CORRECTNESS" and "temperature bf = NONE"
  shows "bf_matches [CORRECTNESS] [COLD, NONE] None bf
     \<and> bf_matches [CORRECTNESS] [COLD, NONE] (Some (team_of bf)) bf
     \<and> \<not> bf_matches [CORRECTNESS] [HOT] team bf
     \<and> \<not> bf_matches [PERFORMANCE] [HOT, COLD, NONE] team bf
     \<and> (py_any (\<lambda>p. p \<in> set (active_project_names info)) (evergreen_projects bf) \<longrightarrow>
          get_bf_count (add_bf_data r bf info) [CORRECTNESS] [HOT] team
            = get_bf_count r [CORRECTNESS] [HOT] team
          \<and> get_bf_count (add_bf_data r bf info) [PERFORMANCE] [HOT, COLD, NONE] team
            = get_bf_count r [PERFORMANCE] [HOT, COLD, NONE] team
          \<and> get_bf_count (add_bf_data r bf info) [CORRECTNESS] [COLD, NONE] team
            = get_bf_count r [CORRECTNESS] [COLD, NONE] team
              + (if team = None \<or> team = Some (team_of bf) then 1 else 0)
          \<and> overall_bf_counts (add_bf_data r bf info)
            = (case overall_bf_counts r of (h, c, p) \<Rightarrow> (h, c + 1, p)))"
proof -
  have m: "bf_matches [CORRECTNESS] [COLD, NONE] None bf"
    "bf_matches [CORRECTNESS] [COLD, NONE] (Some (team_of bf)) bf"
    "\<not> bf_matches [CORRECTNESS] [HOT] team bf"
    "\<not> bf_matches [PERFORMANCE] [HOT, COLD, NONE] team bf"
    "bf_matches [CORRECTNESS] [COLD, NONE] team bf
       \<longleftrightarrow> team = None \<or> team = Some (team_of bf)"
    "\<not> bf_matches [CORRECTNESS] [HOT] None bf"
    "\<not> bf_matches [PERFORMANCE] [HOT, COLD, NONE] None bf"
    using assms by (auto simp: bf_matches_def split: option.splits)
  show ?thesis
    using m by (auto simp: get_bf_count_add_bf_data overall_bf_counts_def)
qed

text \<open>
  An unclassified correctness ticket ingested into the empty report: the counts are
  (0, 1, 0), overall and for its team.
\<close>

theorem C6_unclassified_counted_cold_only_witness:
  "test_type bf_unclassified = CORRECTNESS \<and> temperature bf_unclassified = NONE
   \<and> py_any (\<lambda>p. p \<in> set (active_project_names info_master)) (evergreen_projects bf_unclassified)
   \<and> overall_bf_counts BFsReport_empty = (0, 0, 0)
   \<and> overall_bf_counts (add_bf_data BFsReport_empty bf_unclassified info_master) = (0, 1, 0)
   \<and> max_per_team_bf_counts (add_bf_data BFsReport_empty bf_unclassified info_master) = (0, 1, 0)"
proof -
  have a: "test_type bf_unclassified = CORRECTNESS" and b: "temperature bf_unclassified = NONE"
    by (simp_all add: bf_unclassified_def)
  have c: "py_any (\<lambda>p. p \<in> set (active_project_names info_master))
             (evergreen_projects bf_unclassified)"
    by (simp add: bf_unclassified_def info_master_def)
  have t: "all_assigned_teams (add_bf_data BFsReport_empty bf_unclassified info_master)
             = [team_of bf_unclassified]"
    using c by (simp add: add_bf_data_def BFsReport_empty_def)
  have e: "\<And>tt bt team. get_bf_count BFsReport_empty tt bt team = 0"
    by (simp add: get_bf_count_def BFsReport_empty_def)
  show ?thesis
    using C6_unclassified_counted_cold_only[OF a b, of "Some (team_of bf_unclassified)"
        info_master BFsReport_empty] a b c overall_bf_counts_empty
    by (simp add: max_per_team_bf_counts_def t e)
qed

section \<open>Logged computations\<close>

lemma bind_logged_returns: "bind_logged (returns x) f = f x"
  by (cases "f x") (simp add: bind_logged_def returns_def)

lemma bind_logged_call_Inr: "bind_logged (call (Inr x)) f = f x"
  by (cases "f x") (simp add: bind_logged_def call_def)

lemma bind_logged_call_Inl: "bind_logged (call (Inl e)) f = ([], Inl e)"
  by (simp add: bind_logged_def call_def)

lemma bind_logged_info: "bind_logged (LOGGER_info entry) f = (entry # fst (f ()), snd (f ()))"
  by (cases "f ()") (simp add: bind_logged_def LOGGER_info_def)

lemma bind_logged_Inr_iff:
  "bind_logged m f = (entries, Inr y) \<longleftrightarrow>
     (\<exists>e1 x e2. m = (e1, Inr x) \<and> f x = (e2, Inr y) \<and> entries = e1 @ e2)"
proof (cases m)
  case (Pair e1 r)
  show ?thesis
  proof (cases r)
    case (Inl e)
    then show ?thesis using Pair by (simp add: bind_logged_def)
  next
    case (Inr x)
    then show ?thesis using Pair by (cases "f x") (auto simp: bind_logged_def)
  qed
qed

lemma snd_bind_logged_Inl_iff:
  "snd (bind_logged m f) = Inl e \<longleftrightarrow>
     snd m = Inl e \<or> (\<exists>x. snd m = Inr x \<and> snd (f x) = Inl e)"
proof (cases m)
  case (Pair e1 r)
  show ?thesis
  proof (cases r)
    case (Inl e')
    then show ?thesis using Pair by (simp add: bind_logged_def)
  next
    case (Inr x)
    then show ?thesis using Pair by (cases "f x") (auto simp: bind_logged_def)
  qed
qed

lemma set_fst_bind_logged:
  "set (fst (bind_logged m f)) =
     set (fst m) \<union> (case snd m of Inl e \<Rightarrow> {} | Inr x \<Rightarrow> set (fst (f x)))"
proof (cases m)
  case (Pair e1 r)
  show ?thesis
  proof (cases r)
    case (Inl e')
    then show ?thesis using Pair by (simp add: bind_logged_def)
  next
    case (Inr x)
    then show ?thesis using Pair by (cases "f x") (auto simp: bind_logged_def)
  qed
qed

lemma call_eq_iff: "call r = (entries, r') \<longleftrightarrow> entries = [] \<and> r = r'"
  by (auto simp: call_def)

lemma returns_eq_iff: "returns x = (entries, r) \<longleftrightarrow> entries = [] \<and> r = Inr x"
  by (auto simp: returns_def)

lemma LOGGER_info_eq_iff: "LOGGER_info a = (entries, r) \<longleftrightarrow> entries = [a] \<and> r = Inr ()"
  by (auto simp: LOGGER_info_def)

lemma median_empty: "median [] = Inl StatisticsError"
  by (simp add: median_def)

lemma median_error:
  assumes "median xs = Inl e"
  shows "e = StatisticsError \<or> e = OverflowError"
  using assms py_truediv_error[of 2 _ e]
  by (auto simp: median_def Let_def bind_error_Inl_iff split: if_splits)

lemma sort_eq_Nil_iff: "sort xs = [] \<longleftrightarrow> xs = []"
  using length_sort[of "\<lambda>x. x" xs] by (metis length_0_conv)

lemma median_nonempty:
  assumes "xs \<noteq> []"
  shows "median xs \<noteq> Inl StatisticsError"
  using assms py_truediv_error[of 2 _ StatisticsError]
  by (auto simp: median_def Let_def bind_error_Inl_iff sort_eq_Nil_iff split: if_splits)

lemma format_0f_error:
  assumes "format_0f x = Inl e"
  shows "e = OverflowError"
  using assms by (auto simp: format_0f_def split: pynum.splits pyfloat.splits)

lemma format_0f_PyFloat: "format_0f (PyFloat f) = Inr (PyFloat f)"
  by (simp add: format_0f_def)

lemma redness_lines_empty_series:
  assumes "(name, []) \<in> set items"
  shows "\<exists>e. snd (redness_lines items lines) = Inl e \<and> (e = StatisticsError \<or> e = OverflowError)"
  using assms
proof (induction items arbitrary: lines)
  case Nil
  then show ?case by simp
next
  case (Cons item items)
  obtain n daily where item: "item = (n, daily)" by (cases item)
  show ?case
  proof (cases "median (map failed daily)")
    case (Inl e)
    then show ?thesis using median_error[OF Inl] item
      by (auto simp: bind_logged_info bind_logged_call_Inl)
  next
    case (Inr m)
    then have "daily \<noteq> []" using median_empty by auto
    then have "(name, []) \<in> set items" using Cons.prems item by auto
    from Cons.IH[OF this] show ?thesis using Inr item format_0f_error[of m]
      by (cases "format_0f m")
         (simp_all add: bind_logged_info bind_logged_call_Inr bind_logged_call_Inl)
  qed
qed

lemma redness_lines_first_empty:
  "redness_lines ((name, []) # items) lines = ([DailyRedBoxCounts name []], Inl StatisticsError)"
  by (simp add: bind_logged_info bind_logged_call_Inl median_empty)

lemma get_waterfall_redness_status_first_empty:
  "get_waterfall_redness_status ((name, []) # waterfall_report) window_start window_end
     = ([DailyRedBoxCounts name []], Inl StatisticsError)"
  unfolding get_waterfall_redness_status_def redness_lines_first_empty
  by (simp add: bind_logged_def)

text \<open>
  Claim C8. The median of an empty sequence of daily failed-task tallies is not a default
  value but the exception \<open>StatisticsError\<close>: a waterfall report in which some project
  has an empty series makes \<open>_get_waterfall_redness_status\<close> fail, at that project when it
  comes first, and in any case with an exception (that one, or the \<open>OverflowError\<close> of an
  earlier median or of its formatting).
\<close>

theorem C8_empty_series_fails:
  "median (map failed []) = Inl StatisticsError
   \<and> get_waterfall_redness_status ((evg_project_name, []) # waterfall_report) window_start window_end
       = ([DailyRedBoxCounts evg_project_name []], Inl StatisticsError)
   \<and> ((evg_project_name, []) \<in> set waterfall_report \<longrightarrow>
        (\<exists>e. snd (get_waterfall_redness_status waterfall_report window_start window_end) = Inl e
             \<and> (e = StatisticsError \<or> e = OverflowError)))"
proof -
  have "\<exists>e. snd (get_waterfall_redness_status waterfall_report window_start window_end) = Inl e
             \<and> (e = StatisticsError \<or> e = OverflowError)"
    if "(evg_project_name, []) \<in> set waterfall_report"
    using redness_lines_empty_series[OF that, of "[]"]
    by (auto simp: get_waterfall_redness_status_def snd_bind_logged_Inl_iff)
  then show ?thesis
    by (simp add: median_empty get_waterfall_redness_status_first_empty)
qed

section \<open>The waterfall report: accumulation and assembly\<close>

lemma accumulate_builds_fold:
  "accumulate_builds name builds st =
     fold (\<lambda>b s. add s b) (filter (\<lambda>b. project b = name) builds) st"
  by (induction builds arbitrary: st) simp_all

lemma project_fold_add: "project (fold (\<lambda>b s. add s b) builds st) = project st"
  by (induction builds arbitrary: st) (simp_all add: add_def)

lemma accumulate_project_statuses_map:
  "accumulate_project_statuses names builds =
     map (\<lambda>name. fold (\<lambda>b s. add s b) (filter (\<lambda>b. project b = name) builds)
                    (TaskStatusCounts_of_project name)) names"
  by (induction names) (simp_all add: accumulate_builds_fold)

lemma project_accumulated:
  "map project (accumulate_project_statuses names builds) = names"
  by (simp add: accumulate_project_statuses_map project_fold_add TaskStatusCounts_of_project_def
      comp_def)

lemma length_filter_eq_count_list: "length (filter (\<lambda>n. n = k) names) = count_list names k"
  by (induction names) simp_all

lemma filter_eq_distinct:
  assumes "distinct names" "k \<in> set names"
  shows "filter (\<lambda>n. n = k) names = [k]"
  using assms by (induction names) (auto simp: filter_empty_conv)

lemma map_fst_dict_set:
  "map fst (dict_set k v d) = (if k \<in> set (map fst d) then map fst d else map fst d @ [k])"
proof (induction d)
  case Nil
  show ?case by simp
next
  case (Cons p d)
  obtain k' v' where p: "p = (k', v')" by (cases p)
  show ?case using Cons.IH by (auto simp: p)
qed

lemma snd_dict_set:
  "set (map snd (dict_set k v d)) \<subseteq> insert v (set (map snd d))"
proof (induction d)
  case Nil
  show ?case by simp
next
  case (Cons p d)
  obtain k' v' where p: "p = (k', v')" by (cases p)
  show ?case using Cons.IH by (cases "k' = k") (auto simp: p)
qed

lemma dict_init_keys:
  "distinct (map fst d) \<Longrightarrow>
     distinct (map fst (fold (\<lambda>n d. dict_set n v d) names d))
     \<and> set (map fst (fold (\<lambda>n d. dict_set n v d) names d)) = set (map fst d) \<union> set names"
proof (induction names arbitrary: d)
  case Nil
  then show ?case by simp
next
  case (Cons n names)
  have "distinct (map fst (dict_set n v d))"
    using Cons.prems by (simp add: map_fst_dict_set)
  from Cons.IH[OF this] show ?case
    by (auto simp: map_fst_dict_set split: if_splits)
qed

lemma dict_init_values:
  "set (map snd (fold (\<lambda>n d. dict_set n v d) names d)) \<subseteq> insert v (set (map snd d))"
proof (induction names arbitrary: d)
  case Nil
  then show ?case by auto
next
  case (Cons n names)
  show ?case using Cons.IH[of "dict_set n v d"] snd_dict_set[of n v d] by auto
qed

lemma dict_init_distinct:
  "distinct (map fst d @ names) \<Longrightarrow>
     fold (\<lambda>n d. dict_set n v d) names d = d @ map (\<lambda>n. (n, v)) names"
proof (induction names arbitrary: d)
  case Nil
  then show ?case by simp
next
  case (Cons n names)
  have n: "n \<notin> set (map fst d)" using Cons.prems by auto
  then have s: "dict_set n v d = d @ [(n, v)]" by (induction d) auto
  have "distinct (map fst (d @ [(n, v)]) @ names)" using Cons.prems by auto
  from Cons.IH[OF this] show ?case by (simp add: s)
qed

lemma dict_append_present:
  assumes "distinct (map fst d)" "k \<in> set (map fst d)"
  shows "dict_append k x d = Inr (map (\<lambda>(k', xs). (k', if k' = k then xs @ [x] else xs)) d)"
  using assms
proof (induction d)
  case Nil
  then show ?case by simp
next
  case (Cons p d)
  obtain k' xs where p: "p = (k', xs)" by (cases p)
  show ?case
  proof (cases "k' = k")
    case True
    then have "k \<notin> set (map fst d)" using Cons.prems p by auto
    then have "map (\<lambda>(k', xs). (k', if k' = k then xs @ [x] else xs)) d = d"
      by (induction d) auto
    then show ?thesis using True p by simp
  next
    case False
    then have "k \<in> set (map fst d)" "distinct (map fst d)" using Cons.prems p by auto
    then show ?thesis using Cons.IH False p by (simp add: bind_error_def)
  qed
qed

lemma dict_append_absent:
  "k \<notin> set (map fst d) \<Longrightarrow> dict_append k x d = Inl KeyError"
  by (induction d) (auto simp: bind_error_def)

lemma fill_report_map:
  assumes "distinct (map fst d)" "set (map project tsc) \<subseteq> set (map fst d)"
  shows "fill_report tsc d =
           Inr (map (\<lambda>(k, xs). (k, xs @ filter (\<lambda>t. project t = k) tsc)) d)"
  using assms
proof (induction tsc arbitrary: d)
  case Nil
  then show ?case by (simp add: case_prod_unfold)
next
  case (Cons t tsc)
  define d' where "d' = map (\<lambda>(k', xs). (k', if k' = project t then xs @ [t] else xs)) d"
  have a: "dict_append (project t) t d = Inr d'"
    unfolding d'_def using Cons.prems by (intro dict_append_present) auto
  have k: "map fst d' = map fst d" by (simp add: d'_def comp_def case_prod_unfold)
  have "fill_report tsc d' = Inr (map (\<lambda>(k, xs). (k, xs @ filter (\<lambda>t. project t = k) tsc)) d')"
    using Cons.prems k by (intro Cons.IH) auto
  then show ?case
    by (simp add: a bind_error_def d'_def comp_def case_prod_unfold)
qed

lemma sub_days_Inr:
  assumes "sub_days d n = Inr d'"
  shows "d' = d\<lparr>ordinal := ordinal d - n\<rparr> \<and> 1 \<le> ordinal d - n \<and> ordinal d - n \<le> 3652059"
  using assms by (auto simp: sub_days_def Let_def split: if_splits)

lemma waterfall_days_Inr:
  assumes "waterfall_days svc names we days acc = (entries, Inr tsc)"
  shows "\<exists>daily.
       list_all2 (\<lambda>day builds. get_waterfall_status svc names (fst (sub_window we day))
                                  (snd (sub_window we day)) = Inr builds) days daily
     \<and> tsc = acc @ concat (map (accumulate_project_statuses names) daily)
     \<and> entries = map (\<lambda>day. GettingWaterfall names (fst (sub_window we day))
                                (snd (sub_window we day))) days"
  using assms
proof (induction days arbitrary: acc entries)
  case Nil
  then show ?case by (simp add: returns_eq_iff)
next
  case (Cons day days)
  from Cons.prems obtain dwe dws builds e' where
    s: "sub_days we (int day) = Inr dwe" "sub_days dwe 1 = Inr dws"
    and g: "get_waterfall_status svc names dws dwe = Inr builds"
    and r: "waterfall_days svc names we days (acc @ accumulate_project_statuses names builds)
              = (e', Inr tsc)"
    and e: "entries = GettingWaterfall names dws dwe # e'"
    by (auto simp: bind_logged_Inr_iff call_eq_iff LOGGER_info_eq_iff)
  have w: "dwe = snd (sub_window we day)" "dws = fst (sub_window we day)"
    using sub_days_Inr[OF s(1)] sub_days_Inr[OF s(2)]
    by (simp_all add: sub_window_def algebra_simps)
  from Cons.IH[OF r] obtain daily where
    d: "list_all2 (\<lambda>day builds. get_waterfall_status svc names (fst (sub_window we day))
                                  (snd (sub_window we day)) = Inr builds) days daily"
      "tsc = (acc @ accumulate_project_statuses names builds)
               @ concat (map (accumulate_project_statuses names) daily)"
      "e' = map (\<lambda>day. GettingWaterfall names (fst (sub_window we day))
                                (snd (sub_window we day))) days"
    by blast
  show ?case
    by (rule exI[of _ "builds # daily"]) (use d g e w in simp)
qed

lemma waterfall_days_no_status:
  "StatusLines m \<notin> set (fst (waterfall_days svc names we days acc))"
proof (induction days arbitrary: acc)
  case Nil
  show ?case by (simp add: returns_def)
next
  case (Cons day days)
  show ?case
    using Cons.IH
    by (auto simp: set_fst_bind_logged call_def LOGGER_info_def split: sum.splits)
qed

lemma redness_lines_Inr:
  assumes "redness_lines items lines = (entries, Inr out)"
  shows "\<exists>ms. out = lines @ ms
     \<and> list_all2 (\<lambda>item line. fst line = fst item \<and> median (map failed (snd item)) = Inr (snd line))
          items ms
     \<and> entries = map (\<lambda>item. DailyRedBoxCounts (fst item) (map failed (snd item))) items"
  using assms
proof (induction items arbitrary: lines entries)
  case Nil
  then show ?case by (simp add: returns_eq_iff)
next
  case (Cons item items)
  obtain name series where item: "item = (name, series)" by (cases item)
  from Cons.prems obtain m e' where
    m: "median (map failed series) = Inr m"
    and r: "redness_lines items (lines @ [(name, m)]) = (e', Inr out)"
    and e: "entries = DailyRedBoxCounts name (map failed series) # e'"
    unfolding item
    by (auto simp: Let_def bind_logged_Inr_iff call_eq_iff LOGGER_info_eq_iff)
  from Cons.IH[OF r] obtain ms where
    ms: "out = (lines @ [(name, m)]) @ ms"
      "list_all2 (\<lambda>item line. fst line = fst item \<and> median (map failed (snd item)) = Inr (snd line))
          items ms"
      "e' = map (\<lambda>item. DailyRedBoxCounts (fst item) (map failed (snd item))) items"
    by blast
  show ?case
    by (rule exI[of _ "(name, m) # ms"]) (use ms m e item in simp)
qed

lemma redness_lines_no_status:
  "StatusLines m \<notin> set (fst (redness_lines items lines))"
proof (induction items arbitrary: lines)
  case Nil
  show ?case by (simp add: returns_def)
next
  case (Cons item items)
  obtain name series where item: "item = (name, series)" by (cases item)
  show ?case
    using Cons.IH unfolding item
    by (auto simp: Let_def set_fst_bind_logged call_def LOGGER_info_def split: sum.splits)
qed

lemma redness_lines_nonempty_series:
  assumes "\<forall>item \<in> set items. snd item \<noteq> []"
  shows "snd (redness_lines items lines) \<noteq> Inl StatisticsError"
  using assms
proof (induction items arbitrary: lines)
  case Nil
  show ?case by (simp add: returns_def)
next
  case (Cons item items)
  obtain name series where item: "item = (name, series)" by (cases item)
  have "series \<noteq> []" using Cons.prems item by simp
  then have m: "median (map failed series) \<noteq> Inl StatisticsError"
    by (intro median_nonempty) simp
  have "snd (redness_lines items ls) \<noteq> Inl StatisticsError" for ls
    using Cons.IH Cons.prems by simp
  then show ?case using m unfolding item
    by (cases "median (map failed series)"; cases "format_0f (projr (median (map failed series)))")
       (auto simp: Let_def bind_logged_info bind_logged_call_Inl bind_logged_call_Inr
             dest: format_0f_error)
qed

lemmas logged_eval =
  bind_logged_info bind_logged_call_Inr bind_logged_call_Inl bind_logged_returns

lemma sub_days_in_range:
  assumes "1 \<le> ordinal d - n" "ordinal d - n \<le> 3652059"
  shows "sub_days d n = Inr (d\<lparr>ordinal := ordinal d - n\<rparr>)"
  using assms by (simp add: sub_days_def Let_def)

lemma waterfall_days_constant:
  assumes g: "\<And>s e. get_waterfall_status svc names s e = Inr builds"
    and r: "\<forall>day \<in> set days. 2 \<le> ordinal we - int day \<and> ordinal we - int day \<le> 3652059"
  shows "waterfall_days svc names we days acc =
     (map (\<lambda>day. GettingWaterfall names (fst (sub_window we day)) (snd (sub_window we day))) days,
      Inr (acc @ concat (replicate (length days) (accumulate_project_statuses names builds))))"
  using r
proof (induction days arbitrary: acc)
  case Nil
  show ?case by (simp add: returns_def)
next
  case (Cons day days)
  have a: "sub_days we (int day) = Inr (we\<lparr>ordinal := ordinal we - int day\<rparr>)"
    using Cons.prems by (intro sub_days_in_range) auto
  have b: "sub_days (we\<lparr>ordinal := ordinal we - int day\<rparr>) 1
             = Inr (we\<lparr>ordinal := ordinal we - (int day + 1)\<rparr>)"
    using Cons.prems by (simp add: sub_days_def Let_def algebra_simps)
  have "waterfall_days svc names we days (acc @ accumulate_project_statuses names builds) =
     (map (\<lambda>day. GettingWaterfall names (fst (sub_window we day)) (snd (sub_window we day))) days,
      Inr ((acc @ accumulate_project_statuses names builds)
             @ concat (replicate (length days) (accumulate_project_statuses names builds))))"
    using Cons.prems by (intro Cons.IH) auto
  then show ?case
    by (simp add: a b g logged_eval sub_window_def)
qed

lemma project_tally [simp]: "project (tally_of_matching_builds name builds) = name"
  by (simp add: tally_of_matching_builds_def project_fold_add TaskStatusCounts_of_project_def)

lemma accumulate_tallies:
  "accumulate_project_statuses names builds = map (\<lambda>name. tally_of_matching_builds name builds) names"
  by (simp add: accumulate_project_statuses_map tally_of_matching_builds_def)

lemma filter_concat_accumulated:
  "filter (\<lambda>t. project t = k) (concat (map (accumulate_project_statuses names) daily)) =
     concat (map (\<lambda>builds. map (\<lambda>name. tally_of_matching_builds name builds)
                               (filter (\<lambda>n. n = k) names)) daily)"
  by (induction daily) (simp_all add: accumulate_tallies filter_map comp_def)

lemma length_concat_const:
  "length (concat (map (\<lambda>builds. map (f builds) xs) daily)) = length daily * length xs"
  by (induction daily) simp_all

lemma initial_report_keys:
  "distinct (map fst (initial_report names))" "set (map fst (initial_report names)) = set names"
  using dict_init_keys[where d = "[]" and v = "[] :: TaskStatusCounts list" and names = names]
  by (simp_all add: initial_report_def)

lemma initial_report_values: "(k, xs) \<in> set (initial_report names) \<Longrightarrow> xs = []"
  using dict_init_values[where d = "[]" and v = "[] :: TaskStatusCounts list" and names = names]
  by (force simp: initial_report_def)

lemma initial_report_map:
  "map (\<lambda>(k, xs). (k, xs @ f k)) (initial_report names)
     = map (\<lambda>k. (k, f k)) (map fst (initial_report names))"
  using initial_report_values[of _ _ names] by (auto simp: comp_def)

lemma initial_report_distinct:
  "distinct names \<Longrightarrow> map fst (initial_report names) = names"
  using dict_init_distinct[where d = "[]" and v = "[] :: TaskStatusCounts list" and names = names]
  by (simp add: initial_report_def comp_def)

lemma make_waterfall_report_of_days:
  assumes "waterfall_days svc names we [0..<EVERGREEN_LOOKBACK_DAYS] [] = (entries, Inr tsc)"
  shows "make_waterfall_report svc names we =
     (entries, Inr (map (\<lambda>k. (k, filter (\<lambda>t. project t = k) tsc)) (map fst (initial_report names))))"
proof -
  from waterfall_days_Inr[OF assms] obtain daily where
    tsc: "tsc = concat (map (accumulate_project_statuses names) daily)" by auto
  have "set (map project tsc) \<subseteq> set names"
    unfolding tsc by (induction daily) (simp_all add: project_accumulated)
  then have "fill_report tsc (initial_report names) =
      Inr (map (\<lambda>(k, xs). (k, xs @ filter (\<lambda>t. project t = k) tsc)) (initial_report names))"
    using initial_report_keys[of names] by (intro fill_report_map) simp_all
  then show ?thesis
    using assms unfolding make_waterfall_report_def initial_report_def[symmetric]
    by (simp add: bind_logged_def call_def initial_report_map)
qed

lemma make_waterfall_report_Inr:
  assumes "make_waterfall_report svc names we = (entries, Inr report)"
  shows "\<exists>daily.
       list_all2 (\<lambda>day builds. get_waterfall_status svc names (fst (sub_window we day))
                                  (snd (sub_window we day)) = Inr builds) [0..<14] daily
     \<and> report = map (\<lambda>k. (k, concat (map (\<lambda>builds. map (\<lambda>name. tally_of_matching_builds name builds)
                               (filter (\<lambda>n. n = k) names)) daily))) (map fst (initial_report names))
     \<and> entries = map (\<lambda>day. GettingWaterfall names (fst (sub_window we day))
                                (snd (sub_window we day))) [0..<14]"
proof -
  from assms obtain tsc where
    w: "waterfall_days svc names we [0..<EVERGREEN_LOOKBACK_DAYS] [] = (entries, Inr tsc)"
    unfolding make_waterfall_report_def
    by (auto simp: bind_logged_Inr_iff call_eq_iff)
  from waterfall_days_Inr[OF w] obtain daily where
    d: "list_all2 (\<lambda>day builds. get_waterfall_status svc names (fst (sub_window we day))
                                  (snd (sub_window we day)) = Inr builds)
          [0..<EVERGREEN_LOOKBACK_DAYS] daily"
      "tsc = concat (map (accumulate_project_statuses names) daily)"
      "entries = map (\<lambda>day. GettingWaterfall names (fst (sub_window we day))
                                (snd (sub_window we day))) [0..<EVERGREEN_LOOKBACK_DAYS]"
    by auto
  have "report = map (\<lambda>k. (k, filter (\<lambda>t. project t = k) tsc)) (map fst (initial_report names))"
    using make_waterfall_report_of_days[OF w] assms by simp
  then show ?thesis
    using d unfolding EVERGREEN_LOOKBACK_DAYS_def
    by (intro exI[of _ daily]) (simp add: filter_concat_accumulated)
qed

lemma map_of_keyed:
  "k \<in> set ks \<Longrightarrow> map_of (map (\<lambda>k. (k, f k)) ks) k = Some (f k)"
  by (induction ks) auto

lemma accumulate_ignores_inactive:
  "accumulate_project_statuses names builds =
     accumulate_project_statuses names (filter (\<lambda>b. project b \<in> set names) builds)"
proof -
  have "filter (\<lambda>b. project b = name) (filter (\<lambda>b. project b \<in> set names) builds)
          = filter (\<lambda>b. project b = name) builds" if "name \<in> set names" for name
    using that by (induction builds) auto
  then show ?thesis
    by (simp add: accumulate_tallies tally_of_matching_builds_def)
qed

lemma tally_no_builds:
  assumes "\<forall>b \<in> set builds. project b \<noteq> name"
  shows "tally_of_matching_builds name builds = TaskStatusCounts_of_project name"
proof -
  have "filter (\<lambda>b. project b = name) builds = []"
    using assms by (simp add: filter_empty_conv)
  then show ?thesis by (simp add: tally_of_matching_builds_def)
qed

lemma count_list_pos: "name \<in> set names \<Longrightarrow> 0 < count_list names name"
  by (induction names) auto

lemma get_waterfall_redness_status_nonempty_series:
  assumes "\<forall>item \<in> set report. snd item \<noteq> []"
  shows "snd (get_waterfall_redness_status report ws we) \<noteq> Inl StatisticsError"
  using redness_lines_nonempty_series[OF assms, of "[]"]
  by (auto simp: get_waterfall_redness_status_def snd_bind_logged_Inl_iff returns_def)

lemma waterfall_report_shape:
  assumes "make_waterfall_report svc names we = (entries, Inr report)"
  shows "distinct (map fst report) \<and> set (map fst report) = set names
     \<and> (distinct names \<longrightarrow> map fst report = names)
     \<and> (\<exists>daily.
          list_all2 (\<lambda>day builds. get_waterfall_status svc names (fst (sub_window we day))
                                     (snd (sub_window we day)) = Inr builds) [0..<14] daily
          \<and> (\<forall>name \<in> set names. \<exists>series.
                map_of report name = Some series
                \<and> length series = 14 * count_list names name \<and> series \<noteq> []
                \<and> (distinct names \<longrightarrow> series = map (tally_of_matching_builds name) daily)))
     \<and> snd (get_waterfall_redness_status report ws we') \<noteq> Inl StatisticsError"
proof -
  define keys where "keys = map fst (initial_report names)"
  define series_of where "series_of daily k =
      concat (map (\<lambda>builds. map (\<lambda>name. tally_of_matching_builds name builds)
                               (filter (\<lambda>n. n = k) names)) daily)" for daily k
  from make_waterfall_report_Inr[OF assms] obtain daily where
    d: "list_all2 (\<lambda>day builds. get_waterfall_status svc names (fst (sub_window we day))
                                  (snd (sub_window we day)) = Inr builds) [0..<14] daily"
    and r: "report = map (\<lambda>k. (k, series_of daily k)) keys"
    unfolding keys_def series_of_def by blast
  have k: "distinct keys" "set keys = set names" "distinct names \<Longrightarrow> keys = names"
    unfolding keys_def
    using initial_report_keys[of names] initial_report_distinct[of names] by simp_all
  have fst: "map fst report = keys" by (simp add: r comp_def)
  have len: "length daily = 14" using list_all2_lengthD[OF d] by simp
  have l: "length (series_of daily name) = 14 * count_list names name" for name
    unfolding series_of_def length_concat_const len length_filter_eq_count_list ..
  have ne: "series_of daily name \<noteq> []" if "name \<in> set names" for name
    using l[of name] count_list_pos[OF that] by auto
  have dist: "series_of daily name = map (tally_of_matching_builds name) daily"
    if "distinct names" "name \<in> set names" for name
    unfolding series_of_def filter_eq_distinct[OF that]
    by (induction daily) simp_all
  have m: "map_of report name = Some (series_of daily name)" if "name \<in> set names" for name
    unfolding r using that k(2) by (intro map_of_keyed) simp
  have "\<forall>item \<in> set report. snd item \<noteq> []"
    using ne k(2) by (auto simp: r)
  then have s: "snd (get_waterfall_redness_status report ws we') \<noteq> Inl StatisticsError"
    by (rule get_waterfall_redness_status_nonempty_series)
  have "\<forall>name \<in> set names. \<exists>series.
                map_of report name = Some series
                \<and> length series = 14 * count_list names name \<and> series \<noteq> []
                \<and> (distinct names \<longrightarrow> series = map (tally_of_matching_builds name) daily)"
    using m l ne dist by blast
  then show ?thesis using k fst d s by blast
qed

text \<open>
  Claim C10. Each day's accumulation emits one tally per entry of the list of
  project names: the fold of exactly the builds whose project matches (the all-zero tally
  when there is none); builds of other projects are ignored. When the fourteen daily
  queries succeed, the assembly of the report never fails on a missing key, its keys are
  the project names, every project's series has 14 tallies for each occurrence of the
  project in the list (so exactly 14, one per lookback day and in day order, when the
  names are pairwise distinct), every series is non-empty and no median fails for lack of
  data.
\<close>

theorem C10_waterfall_report_series:
  "accumulate_project_statuses evg_project_names build_statuses
      = map (\<lambda>name. tally_of_matching_builds name build_statuses) evg_project_names
   \<and> accumulate_project_statuses evg_project_names build_statuses
      = accumulate_project_statuses evg_project_names
          (filter (\<lambda>b. project b \<in> set evg_project_names) build_statuses)
   \<and> ((\<forall>b \<in> set build_statuses. project b \<noteq> name)
        \<longrightarrow> tally_of_matching_builds name build_statuses = TaskStatusCounts_of_project name)
   \<and> (\<forall>entries task_status_counts.
         waterfall_days svc evg_project_names window_end [0..<EVERGREEN_LOOKBACK_DAYS] []
           = (entries, Inr task_status_counts)
         \<longrightarrow> (\<exists>waterfall_report.
                make_waterfall_report svc evg_project_names window_end
                  = (entries, Inr waterfall_report)))
   \<and> (\<forall>entries waterfall_report.
         make_waterfall_report svc evg_project_names window_end = (entries, Inr waterfall_report)
         \<longrightarrow> distinct (map fst waterfall_report)
           \<and> set (map fst waterfall_report) = set evg_project_names
           \<and> (distinct evg_project_names \<longrightarrow> map fst waterfall_report = evg_project_names)
           \<and> (\<exists>daily.
                list_all2 (\<lambda>day builds.
                    get_waterfall_status svc evg_project_names (fst (sub_window window_end day))
                      (snd (sub_window window_end day)) = Inr builds) [0..<14] daily
                \<and> (\<forall>name \<in> set evg_project_names. \<exists>series.
                      map_of waterfall_report name = Some series
                      \<and> length series = 14 * count_list evg_project_names name \<and> series \<noteq> []
                      \<and> (distinct evg_project_names
                           \<longrightarrow> series = map (tally_of_matching_builds name) daily)))
           \<and> snd (get_waterfall_redness_status waterfall_report window_start window_end)
               \<noteq> Inl StatisticsError)"
  using accumulate_tallies[of evg_project_names build_statuses]
    accumulate_ignores_inactive[of evg_project_names build_statuses]
    tally_no_builds[of build_statuses name]
    make_waterfall_report_of_days[of svc evg_project_names window_end]
    waterfall_report_shape[of svc evg_project_names window_end _ _ window_start window_end]
  by (intro conjI allI impI) blast+

section \<open>Runs of \<open>evaluate_build_redness\<close>\<close>

lemma make_bfs_report_Inr:
  assumes "make_bfs_report svc info = (entries, Inr report)"
  shows "\<exists>query active_bfs. fetch_bfs svc query = Inr active_bfs
     \<and> report = fold (\<lambda>bf bfs_report. add_bf_data bfs_report bf info) active_bfs BFsReport_empty
     \<and> entries = [GettingBFs query, GotBFs (length active_bfs)]"
  using assms unfolding make_bfs_report_def Let_def
  by (auto simp: bind_logged_Inr_iff call_eq_iff LOGGER_info_eq_iff returns_eq_iff)

lemma make_bfs_report_no_status:
  "StatusLines m \<notin> set (fst (make_bfs_report svc info))"
  unfolding make_bfs_report_def Let_def
  by (auto simp: set_fst_bind_logged call_def LOGGER_info_def returns_def split: sum.splits)

lemma make_waterfall_report_no_status:
  "StatusLines m \<notin> set (fst (make_waterfall_report svc names we))"
  unfolding make_waterfall_report_def
  using waterfall_days_no_status[of m svc names we]
  by (auto simp: set_fst_bind_logged call_def split: sum.splits)

lemma get_waterfall_redness_status_no_status:
  "StatusLines m \<notin> set (fst (get_waterfall_redness_status report ws we))"
  unfolding get_waterfall_redness_status_def
  using redness_lines_no_status[of m report]
  by (auto simp: set_fst_bind_logged returns_def split: sum.splits)

lemma get_waterfall_redness_status_Inr:
  assumes "get_waterfall_redness_status report ws we = (entries, Inr wmsg)"
  shows "between_start wmsg = ws \<and> between_end wmsg = we
     \<and> list_all2 (\<lambda>item line. fst line = fst item \<and> median (map failed (snd item)) = Inr (snd line))
          report (median_lines wmsg)
     \<and> entries = map (\<lambda>item. DailyRedBoxCounts (fst item) (map failed (snd item))) report"
proof -
  from assms obtain e1 lines where
    r: "redness_lines report [] = (e1, Inr lines)"
    and w: "wmsg = \<lparr>between_start = ws, between_end = we, median_lines = lines\<rparr>" "entries = e1"
    unfolding get_waterfall_redness_status_def
    by (auto simp: bind_logged_Inr_iff returns_eq_iff)
  from redness_lines_Inr[OF r] show ?thesis using w by auto
qed

lemma build_status_message_no_status:
  "StatusLines m \<notin> set (fst (build_status_message svc repo branch))"
  unfolding build_status_message_def Let_def
  using make_bfs_report_no_status[of m svc] make_waterfall_report_no_status[of m svc]
    get_waterfall_redness_status_no_status[of m]
  by (auto simp: set_fst_bind_logged call_def LOGGER_info_def returns_def split: sum.splits)

lemma dict_get_Inr_iff: "dict_get m k = Inr v \<longleftrightarrow> m k = Some v"
  by (simp add: dict_get_def split: option.splits)

lemma build_status_message_iff:
  "build_status_message svc repo branch = (entries, Inr m) \<longleftrightarrow>
     (\<exists>info names e1 report bfmsg ps we ws e2 wr e3 wmsg.
        get_evg_project_info svc repo branch = Inr info
      \<and> branch_to_projects_map info branch = Some names
      \<and> make_bfs_report svc info = (e1, Inr report)
      \<and> get_bf_counts_status report = Inr (bfmsg, ps)
      \<and> sub_days (replace_midnight (utcnow svc)) 1 = Inr we
      \<and> sub_days we 14 = Inr ws
      \<and> make_waterfall_report svc names we = (e2, Inr wr)
      \<and> get_waterfall_redness_status wr ws we = (e3, Inr wmsg)
      \<and> m = \<lparr>msg_repo = repo, msg_branch = branch, bf_status = bfmsg, waterfall = wmsg,
              action = action_of_percentages ps\<rparr>
      \<and> entries = Info ''Getting Evergreen projects data'' # Info ''Got Evergreen projects data''
                    # e1 @ e2 @ e3)"
  unfolding build_status_message_def Let_def EVERGREEN_LOOKBACK_DAYS_def
  by (simp add: bind_logged_Inr_iff call_eq_iff LOGGER_info_eq_iff returns_eq_iff
      dict_get_Inr_iff) blast

lemma evaluate_build_redness_of_status:
  assumes "build_status_message svc repo branch = (entries, Inr m)"
  shows "evaluate_build_redness svc repo branch notify =
           (entries @ StatusLines m # (if notify then [NotifyingSlack SLACK_CHANNEL] else []),
            if notify then send_slack_message svc SLACK_CHANNEL m else Inr ())"
  unfolding evaluate_build_redness_def assms
  by (simp add: bind_logged_def LOGGER_info_def call_def returns_def)

lemma evaluate_build_redness_failed:
  assumes "build_status_message svc repo branch = (entries, Inl e)"
  shows "evaluate_build_redness svc repo branch notify = (entries, Inl e)"
  unfolding evaluate_build_redness_def assms by (simp add: bind_logged_def)

lemma logged_status_messages_append:
  "logged_status_messages (xs @ ys) = logged_status_messages xs @ logged_status_messages ys"
  by (induction xs rule: logged_status_messages.induct) simp_all

lemma logged_status_messages_none:
  "(\<And>m. StatusLines m \<notin> set entries) \<Longrightarrow> logged_status_messages entries = []"
  by (induction entries rule: logged_status_messages.induct) auto

lemma status_logged_iff:
  "StatusLines m \<in> set (fst (evaluate_build_redness svc repo branch notify)) \<longleftrightarrow>
     (\<exists>entries. build_status_message svc repo branch = (entries, Inr m))"
proof (cases "build_status_message svc repo branch")
  case (Pair entries r)
  have n: "StatusLines m \<notin> set entries"
    using build_status_message_no_status[of m svc repo branch] Pair by simp
  show ?thesis
  proof (cases r)
    case (Inl e)
    then show ?thesis
      using Pair n evaluate_build_redness_failed[of svc repo branch entries e notify] by simp
  next
    case (Inr m')
    then show ?thesis
      using Pair n evaluate_build_redness_of_status[of svc repo branch entries m' notify]
      by auto
  qed
qed

lemma logged_status_of_run:
  assumes "build_status_message svc repo branch = (entries, Inr m)"
  shows "logged_status_messages (fst (evaluate_build_redness svc repo branch notify)) = [m]"
proof -
  have "logged_status_messages entries = []"
    using build_status_message_no_status[of _ svc repo branch] assms
    by (intro logged_status_messages_none) simp
  then show ?thesis
    by (simp add: evaluate_build_redness_of_status[OF assms] logged_status_messages_append)
qed

lemma logged_windows_append:
  "logged_windows (xs @ ys) = logged_windows xs @ logged_windows ys"
  by (induction xs rule: logged_windows.induct) simp_all

lemma logged_windows_waterfall:
  "logged_windows (map (\<lambda>day. GettingWaterfall names (f day) (g day)) days)
     = map (\<lambda>day. (f day, g day)) days"
  by (induction days) simp_all

lemma logged_windows_red_boxes:
  "logged_windows (map (\<lambda>item. DailyRedBoxCounts (f item) (g item)) items) = []"
  by (induction items) simp_all

lemma window_end_midnight:
  assumes "sub_days (replace_midnight t) 1 = Inr we"
  shows "we = midnight (ordinal t - 1)"
  using sub_days_Inr[OF assms] by (simp add: replace_midnight_def midnight_def)

lemma window_start_midnight:
  assumes "sub_days (midnight day) n = Inr ws"
  shows "ws = midnight (day - n)"
  using sub_days_Inr[OF assms] by (simp add: midnight_def)

lemma sub_window_midnight:
  "sub_window (midnight day) d = (midnight (day - (int d + 1)), midnight (day - int d))"
  by (simp add: sub_window_def midnight_def)

lemma run_windows:
  assumes "build_status_message svc repo branch = (entries, Inr m)"
  shows "between_end (waterfall m) = midnight (ordinal (utcnow svc) - 1)
     \<and> between_start (waterfall m) = midnight (ordinal (utcnow svc) - 1 - 14)
     \<and> logged_windows entries =
         map (\<lambda>d. (midnight (ordinal (utcnow svc) - 1 - (int d + 1)),
                   midnight (ordinal (utcnow svc) - 1 - int d))) [0..<14]"
proof -
  from assms[unfolded build_status_message_iff] obtain info names e1 report we ws e2 wr e3 wmsg
    where we: "sub_days (replace_midnight (utcnow svc)) 1 = Inr we"
      and ws: "sub_days we 14 = Inr ws"
      and b: "make_bfs_report svc info = (e1, Inr report)"
      and w: "make_waterfall_report svc names we = (e2, Inr wr)"
      and r: "get_waterfall_redness_status wr ws we = (e3, Inr wmsg)"
      and m: "waterfall m = wmsg"
      and e: "entries = Info ''Getting Evergreen projects data''
                # Info ''Got Evergreen projects data'' # e1 @ e2 @ e3"
    by auto
  have we': "we = midnight (ordinal (utcnow svc) - 1)" using we by (rule window_end_midnight)
  have ws': "ws = midnight (ordinal (utcnow svc) - 1 - 14)"
    using ws unfolding we' by (rule window_start_midnight)
  have e1: "logged_windows e1 = []" using make_bfs_report_Inr[OF b] by auto
  have e2: "logged_windows e2 = map (\<lambda>d. (midnight (ordinal (utcnow svc) - 1 - (int d + 1)),
                   midnight (ordinal (utcnow svc) - 1 - int d))) [0..<14]"
    using make_waterfall_report_Inr[OF w] unfolding we'
    by (auto simp: logged_windows_waterfall sub_window_midnight)
  have e3: "logged_windows e3 = []"
    using get_waterfall_redness_status_Inr[OF r] by (simp add: logged_windows_red_boxes)
  have bs: "between_start wmsg = ws" "between_end wmsg = we"
    using get_waterfall_redness_status_Inr[OF r] by simp_all
  show ?thesis
    using bs we' ws' m by (simp add: e logged_windows_append e1 e2 e3)
qed

lemma fst_bind_logged:
  "fst (bind_logged m f) = fst m @ (case snd m of Inl e \<Rightarrow> [] | Inr x \<Rightarrow> fst (f x))"
proof (cases m)
  case (Pair e1 r)
  show ?thesis
  proof (cases r)
    case (Inl e)
    then show ?thesis using Pair by (simp add: bind_logged_def)
  next
    case (Inr x)
    then show ?thesis using Pair by (cases "f x") (simp add: bind_logged_def)
  qed
qed

lemma waterfall_days_windows:
  "\<exists>k \<le> length days.
     logged_windows (fst (waterfall_days svc names we days acc)) = map (sub_window we) (take k days)"
proof (induction days arbitrary: acc)
  case Nil
  show ?case by (simp add: returns_def)
next
  case (Cons day days)
  show ?case
  proof (cases "sub_days we (int day)")
    case (Inl e)
    then have "logged_windows (fst (waterfall_days svc names we (day # days) acc))
                 = map (sub_window we) (take 0 (day # days))"
      by (simp add: bind_logged_call_Inl)
    then show ?thesis by blast
  next
    case a: (Inr dwe)
    show ?thesis
    proof (cases "sub_days dwe 1")
      case (Inl e)
      then have "logged_windows (fst (waterfall_days svc names we (day # days) acc))
                 = map (sub_window we) (take 0 (day # days))"
        using a by (simp add: bind_logged_call_Inl bind_logged_call_Inr)
      then show ?thesis by blast
    next
      case b: (Inr dws)
      have w: "(dws, dwe) = sub_window we day"
        using sub_days_Inr[OF a] sub_days_Inr[OF b] by (simp add: sub_window_def algebra_simps)
      show ?thesis
      proof (cases "get_waterfall_status svc names dws dwe")
        case (Inl e)
        then have "logged_windows (fst (waterfall_days svc names we (day # days) acc))
                 = map (sub_window we) (take 1 (day # days))"
          using a b w by (simp add: logged_eval)
        then show ?thesis by (intro exI[of _ 1]) simp
      next
        case (Inr builds)
        obtain k where k: "k \<le> length days"
          "logged_windows (fst (waterfall_days svc names we days
                                  (acc @ accumulate_project_statuses names builds)))
             = map (sub_window we) (take k days)"
          using Cons.IH by blast
        have "logged_windows (fst (waterfall_days svc names we (day # days) acc))
                 = map (sub_window we) (take (Suc k) (day # days))"
          using a b w Inr k(2) by (simp add: logged_eval)
        then show ?thesis using k(1) by (intro exI[of _ "Suc k"]) simp
      qed
    qed
  qed
qed

lemma make_waterfall_report_windows:
  "\<exists>k \<le> 14. logged_windows (fst (make_waterfall_report svc names we))
                 = map (sub_window we) [0..<k]"
proof -
  obtain k where k: "k \<le> length [0..<EVERGREEN_LOOKBACK_DAYS]"
    "logged_windows (fst (waterfall_days svc names we [0..<EVERGREEN_LOOKBACK_DAYS] []))
       = map (sub_window we) (take k [0..<EVERGREEN_LOOKBACK_DAYS])"
    using waterfall_days_windows by blast
  have "fst (make_waterfall_report svc names we)
          = fst (waterfall_days svc names we [0..<EVERGREEN_LOOKBACK_DAYS] [])"
    unfolding make_waterfall_report_def
    by (simp add: fst_bind_logged call_def split: sum.splits)
  moreover have "take k [0..<EVERGREEN_LOOKBACK_DAYS] = [0..<k]"
    using k(1) by simp
  ultimately show ?thesis
    using k by (intro exI[of _ k]) (simp add: EVERGREEN_LOOKBACK_DAYS_def)
qed

lemma make_bfs_report_no_windows: "logged_windows (fst (make_bfs_report svc info)) = []"
  unfolding make_bfs_report_def Let_def
  by (simp add: fst_bind_logged call_def LOGGER_info_def returns_def split: sum.splits)

lemma redness_lines_no_windows: "logged_windows (fst (redness_lines items lines)) = []"
proof (induction items arbitrary: lines)
  case Nil
  show ?case by (simp add: returns_def)
next
  case (Cons item items)
  obtain name series where item: "item = (name, series)" by (cases item)
  show ?case
    unfolding item
    by (simp add: Let_def fst_bind_logged call_def LOGGER_info_def Cons.IH split: sum.splits)
qed

lemma get_waterfall_redness_status_no_windows:
  "logged_windows (fst (get_waterfall_redness_status report ws we)) = []"
  unfolding get_waterfall_redness_status_def
  by (simp add: fst_bind_logged redness_lines_no_windows returns_def split: sum.splits)

lemma build_status_message_windows:
  "\<exists>k \<le> 14. logged_windows (fst (build_status_message svc repo branch))
     = map (sub_window (midnight (ordinal (utcnow svc) - 1))) [0..<k]"
proof -
  have z: "\<exists>k \<le> 14. [] = map (sub_window (midnight (ordinal (utcnow svc) - 1))) [0..<k]"
    by (intro exI[of _ 0]) simp
  have w: "\<exists>k \<le> 14. logged_windows (fst (make_waterfall_report svc names we))
        = map (sub_window (midnight (ordinal (utcnow svc) - 1))) [0..<k]"
    if "sub_days (replace_midnight (utcnow svc)) 1 = Inr we" for names we
    using make_waterfall_report_windows[of svc names we] window_end_midnight[OF that]
    by simp
  show ?thesis
    unfolding build_status_message_def Let_def
    using z
    by (auto simp: fst_bind_logged call_def LOGGER_info_def returns_def logged_windows_append
        make_bfs_report_no_windows get_waterfall_redness_status_no_windows
        split: sum.splits prod.splits intro: w)
qed

lemma evaluate_build_redness_windows:
  "logged_windows (fst (evaluate_build_redness svc repo branch notify))
     = logged_windows (fst (build_status_message svc repo branch))"
  unfolding evaluate_build_redness_def
  by (simp add: fst_bind_logged call_def LOGGER_info_def returns_def logged_windows_append
      split: sum.splits)

text \<open>
  Claim C7. For a run at current time \<open>t\<close>, the analysis window ends at 00:00 of the day
  before \<open>t\<close>'s date and starts 14 days earlier, and the Evergreen queries are made for
  the consecutive one-day windows from \<open>end - (d + 1)\<close> days to \<open>end - d\<close> days, for
  \<open>d = 0, 1, \<dots>\<close> in this order (most recent first): all 14 of them in a run that
  reaches the verdict, the first few of them in a run that fails on the way.
\<close>

theorem C7_analysis_window:
  "(\<exists>k \<le> 14. logged_windows (fst (evaluate_build_redness svc repo branch notify)) =
       map (\<lambda>d. (midnight (ordinal (utcnow svc) - 1 - (int d + 1)),
                 midnight (ordinal (utcnow svc) - 1 - int d))) [0..<k])
   \<and> (StatusLines m \<in> set (fst (evaluate_build_redness svc repo branch notify)) \<longrightarrow>
         between_end (waterfall m) = midnight (ordinal (utcnow svc) - 1)
       \<and> between_start (waterfall m) = midnight (ordinal (utcnow svc) - 1 - 14)
       \<and> logged_windows (fst (evaluate_build_redness svc repo branch notify)) =
           map (\<lambda>d. (midnight (ordinal (utcnow svc) - 1 - (int d + 1)),
                     midnight (ordinal (utcnow svc) - 1 - int d))) [0..<14])"
proof -
  have "\<exists>k \<le> 14. logged_windows (fst (evaluate_build_redness svc repo branch notify)) =
       map (\<lambda>d. (midnight (ordinal (utcnow svc) - 1 - (int d + 1)),
                 midnight (ordinal (utcnow svc) - 1 - int d))) [0..<k]"
    using build_status_message_windows[of svc repo branch]
    by (simp add: evaluate_build_redness_windows sub_window_midnight[abs_def])
  moreover have "between_end (waterfall m) = midnight (ordinal (utcnow svc) - 1)
       \<and> between_start (waterfall m) = midnight (ordinal (utcnow svc) - 1 - 14)
       \<and> logged_windows (fst (evaluate_build_redness svc repo branch notify)) =
           map (\<lambda>d. (midnight (ordinal (utcnow svc) - 1 - (int d + 1)),
                     midnight (ordinal (utcnow svc) - 1 - int d))) [0..<14]"
    if "StatusLines m \<in> set (fst (evaluate_build_redness svc repo branch notify))"
  proof -
    from that obtain entries where b: "build_status_message svc repo branch = (entries, Inr m)"
      unfolding status_logged_iff by blast
    show ?thesis
      using run_windows[OF b] by (simp add: evaluate_build_redness_windows b)
  qed
  ultimately show ?thesis by blast
qed

lemma same_counts_same_percentages:
  assumes t: "map line_threshold ls1 = map line_threshold ls2"
    and c: "map line_bf_count ls1 = map line_bf_count ls2"
    and p1: "\<forall>l \<in> set ls1. percentage_of (line_bf_count l) (line_threshold l) = Inr (line_percentage l)"
    and p2: "\<forall>l \<in> set ls2. percentage_of (line_bf_count l) (line_threshold l) = Inr (line_percentage l)"
  shows "map line_percentage ls1 = map line_percentage ls2"
proof (rule nth_equalityI)
  show len: "length (map line_percentage ls1) = length (map line_percentage ls2)"
    using map_eq_imp_length_eq[OF c] by simp
  fix i assume "i < length (map line_percentage ls1)"
  then have i: "i < length ls1" "i < length ls2" using len by simp_all
  have "line_threshold (ls1 ! i) = line_threshold (ls2 ! i)"
    using i t by (metis nth_map)
  moreover have "line_bf_count (ls1 ! i) = line_bf_count (ls2 ! i)"
    using i c by (metis nth_map)
  moreover have "percentage_of (line_bf_count (ls1 ! i)) (line_threshold (ls1 ! i))
                   = Inr (line_percentage (ls1 ! i))"
    using p1 i by simp
  moreover have "percentage_of (line_bf_count (ls2 ! i)) (line_threshold (ls2 ! i))
                   = Inr (line_percentage (ls2 ! i))"
    using p2 i by simp
  ultimately have "line_percentage (ls1 ! i) = line_percentage (ls2 ! i)" by simp
  then show "map line_percentage ls1 ! i = map line_percentage ls2 ! i" using i by simp
qed

lemma run_action:
  assumes "build_status_message svc repo branch = (entries, Inr m)"
  shows "action m = action_of_percentages (map line_percentage (count_lines (bf_status m)))
     \<and> map line_threshold (count_lines (bf_status m)) = [30, 100, 30, 7, 20, 10]
     \<and> (\<forall>l \<in> set (count_lines (bf_status m)).
           percentage_of (line_bf_count l) (line_threshold l) = Inr (line_percentage l))
     \<and> (\<exists>names window_end e wr.
           make_waterfall_report svc names window_end = (e, Inr wr)
           \<and> list_all2 (\<lambda>item line. fst line = fst item
                           \<and> median (map failed (snd item)) = Inr (snd line))
                 wr (median_lines (waterfall m)))"
proof -
  from assms[unfolded build_status_message_iff] obtain names report bfmsg ps we ws e2 wr e3 wmsg
    where g: "get_bf_counts_status report = Inr (bfmsg, ps)"
      and w: "make_waterfall_report svc names we = (e2, Inr wr)"
      and r: "get_waterfall_redness_status wr ws we = (e3, Inr wmsg)"
      and m: "m = \<lparr>msg_repo = repo, msg_branch = branch, bf_status = bfmsg, waterfall = wmsg,
              action = action_of_percentages ps\<rparr>"
    by auto
  have "list_all2 (\<lambda>item line. fst line = fst item
                           \<and> median (map failed (snd item)) = Inr (snd line))
                 wr (median_lines (waterfall m))"
    using get_waterfall_redness_status_Inr[OF r] m by simp
  then have "\<exists>names window_end e wr.
           make_waterfall_report svc names window_end = (e, Inr wr)
           \<and> list_all2 (\<lambda>item line. fst line = fst item
                           \<and> median (map failed (snd item)) = Inr (snd line))
                 wr (median_lines (waterfall m))"
    using w by blast
  then show ?thesis using get_bf_counts_status_Inr[OF g] m by simp
qed

text \<open>
  Claim C2. The verdict depends on the six BF counts only. Whatever the collaborators of
  two runs return, if the six counts shown in their status messages agree, so do their
  action lines; the action is computed from the six percentages of the BF-count lines and
  from nothing else, while the medians of the waterfall report appear in the message.
\<close>

theorem C2_verdict_ignores_waterfall:
  assumes "StatusLines m1 \<in> set (fst (evaluate_build_redness svc1 repo1 branch1 notify1))"
    and "StatusLines m2 \<in> set (fst (evaluate_build_redness svc2 repo2 branch2 notify2))"
    and "map line_bf_count (count_lines (bf_status m1))
           = map line_bf_count (count_lines (bf_status m2))"
  shows "action m1 = action m2
     \<and> action m1 = action_of_percentages (map line_percentage (count_lines (bf_status m1)))
     \<and> length (count_lines (bf_status m1)) = 6
     \<and> (\<exists>names window_end e wr.
           make_waterfall_report svc1 names window_end = (e, Inr wr)
           \<and> list_all2 (\<lambda>item line. fst line = fst item
                           \<and> median (map failed (snd item)) = Inr (snd line))
                 wr (median_lines (waterfall m1)))"
proof -
  from assms(1) obtain e1 where b1: "build_status_message svc1 repo1 branch1 = (e1, Inr m1)"
    unfolding status_logged_iff by blast
  from assms(2) obtain e2 where b2: "build_status_message svc2 repo2 branch2 = (e2, Inr m2)"
    unfolding status_logged_iff by blast
  note a1 = run_action[OF b1] and a2 = run_action[OF b2]
  have "map line_percentage (count_lines (bf_status m1))
          = map line_percentage (count_lines (bf_status m2))"
    using a1 a2 assms(3) by (intro same_counts_same_percentages) simp_all
  moreover have "length (count_lines (bf_status m1)) = 6"
    using a1 map_eq_imp_length_eq[of line_threshold "count_lines (bf_status m1)" "\<lambda>x. x"
        "[30, 100, 30, 7, 20, 10]"]
    by simp
  ultimately show ?thesis using a1 a2 by simp
qed

section \<open>Runs without tickets\<close>

lemma waterfall_days_answers:
  assumes g: "\<forall>s e. \<exists>builds. get_waterfall_status svc names s e = Inr builds"
    and r: "\<forall>day \<in> set days. 2 \<le> ordinal we - int day \<and> ordinal we - int day \<le> 3652059"
  shows "\<exists>daily. waterfall_days svc names we days acc =
     (map (\<lambda>day. GettingWaterfall names (fst (sub_window we day)) (snd (sub_window we day))) days,
      Inr (acc @ concat (map (accumulate_project_statuses names) daily)))"
  using r
proof (induction days arbitrary: acc)
  case Nil
  show ?case by (rule exI[of _ "[]"]) (simp add: returns_def)
next
  case (Cons day days)
  have a: "sub_days we (int day) = Inr (we\<lparr>ordinal := ordinal we - int day\<rparr>)"
    using Cons.prems by (intro sub_days_in_range) auto
  have b: "sub_days (we\<lparr>ordinal := ordinal we - int day\<rparr>) 1
             = Inr (we\<lparr>ordinal := ordinal we - (int day + 1)\<rparr>)"
    using Cons.prems by (simp add: sub_days_def Let_def algebra_simps)
  obtain builds where
    c: "get_waterfall_status svc names (we\<lparr>ordinal := ordinal we - (int day + 1)\<rparr>)
          (we\<lparr>ordinal := ordinal we - int day\<rparr>) = Inr builds"
    using g by blast
  have "\<exists>daily. waterfall_days svc names we days (acc @ accumulate_project_statuses names builds) =
     (map (\<lambda>day. GettingWaterfall names (fst (sub_window we day)) (snd (sub_window we day))) days,
      Inr ((acc @ accumulate_project_statuses names builds)
             @ concat (map (accumulate_project_statuses names) daily)))"
    using Cons.prems by (intro Cons.IH) auto
  then obtain daily where
    d: "waterfall_days svc names we days (acc @ accumulate_project_statuses names builds) =
     (map (\<lambda>day. GettingWaterfall names (fst (sub_window we day)) (snd (sub_window we day))) days,
      Inr ((acc @ accumulate_project_statuses names builds)
             @ concat (map (accumulate_project_statuses names) daily)))"
    by blast
  show ?case
    by (rule exI[of _ "builds # daily"]) (simp add: a b c d logged_eval sub_window_def)
qed

lemma lookback_in_range:
  assumes "16 \<le> day" "day \<le> 3652060"
  shows "\<forall>d \<in> set [0..<EVERGREEN_LOOKBACK_DAYS].
           2 \<le> ordinal (midnight (day - 1)) - int d \<and> ordinal (midnight (day - 1)) - int d \<le> 3652059"
  using assms by (auto simp: EVERGREEN_LOOKBACK_DAYS_def midnight_def)

lemma make_waterfall_report_no_projects:
  assumes "\<forall>s e. \<exists>builds. get_waterfall_status svc [] s e = Inr builds"
    and "16 \<le> day" "day \<le> 3652060"
  shows "\<exists>e. make_waterfall_report svc [] (midnight (day - 1)) = (e, Inr [])"
proof -
  from waterfall_days_answers[OF assms(1) lookback_in_range[OF assms(2,3)], of "[]"]
  obtain daily e where
    "waterfall_days svc [] (midnight (day - 1)) [0..<EVERGREEN_LOOKBACK_DAYS] []
       = (e, Inr (concat (map (accumulate_project_statuses []) daily)))"
    by auto
  from make_waterfall_report_of_days[OF this] show ?thesis
    by (simp add: initial_report_def)
qed

lemma get_waterfall_redness_status_no_projects:
  "get_waterfall_redness_status [] ws we =
     ([], Inr \<lparr>between_start = ws, between_end = we, median_lines = []\<rparr>)"
  by (simp add: get_waterfall_redness_status_def returns_def bind_logged_def)

lemma make_bfs_report_no_active_projects:
  assumes "\<forall>query. \<exists>active_bfs. fetch_bfs svc query = Inr active_bfs"
    and "active_project_names info = []"
  shows "\<exists>e. make_bfs_report svc info = (e, Inr BFsReport_empty)"
proof -
  have n: "add_bf_data r bf info = r" for r bf
    using assms(2) by (simp add: add_bf_data_def py_any_iff)
  have f: "fold (\<lambda>bf bfs_report. add_bf_data bfs_report bf info) bfs r = r" for bfs r
    by (induction bfs) (simp_all add: n)
  define query where "query = ACTIVE_BFS_QUERY @ '' AND '' @ [CHR 0x22] @ EVERGREEN_PROJECT svc
      @ [CHR 0x22] @ '' in ('' @ iterable_to_jql (active_project_names info) @ '')''"
  obtain active_bfs where "fetch_bfs svc query = Inr active_bfs" using assms(1) by blast
  then show ?thesis
    unfolding make_bfs_report_def Let_def query_def[symmetric]
    by (simp add: logged_eval f returns_def)
qed

lemma make_bfs_report_no_tickets:
  assumes "\<forall>query. fetch_bfs svc query = Inr []"
  shows "\<exists>e. make_bfs_report svc info = (e, Inr BFsReport_empty)"
  unfolding make_bfs_report_def Let_def
  by (simp add: logged_eval assms returns_def)

lemma action_all_zero:
  "action_of_percentages [Finite 0, Finite 0, Finite 0, Finite 0, Finite 0, Finite 0] = GREEN"
  by (simp add: action_of_percentages_def)

lemma run_without_tickets:
  assumes "get_evg_project_info svc repo branch = Inr info"
    and "branch_to_projects_map info branch = Some names"
    and "make_bfs_report svc info = (e1, Inr BFsReport_empty)"
    and "16 \<le> ordinal (utcnow svc)" "ordinal (utcnow svc) \<le> 3652060"
    and "make_waterfall_report svc names (midnight (ordinal (utcnow svc) - 1)) = (e2, Inr wr)"
    and "get_waterfall_redness_status wr (midnight (ordinal (utcnow svc) - 15))
           (midnight (ordinal (utcnow svc) - 1)) = (e3, Inr wmsg)"
  shows "\<exists>entries m. build_status_message svc repo branch = (entries, Inr m)
     \<and> action m = GREEN \<and> waterfall m = wmsg
     \<and> map line_bf_count (count_lines (bf_status m)) = [0, 0, 0, 0, 0, 0]"
proof -
  have a: "sub_days (replace_midnight (utcnow svc)) 1 = Inr (midnight (ordinal (utcnow svc) - 1))"
    using assms(4,5) by (simp add: sub_days_def replace_midnight_def midnight_def)
  have b: "sub_days (midnight (ordinal (utcnow svc) - 1)) 14
             = Inr (midnight (ordinal (utcnow svc) - 15))"
    using assms(4,5) by (simp add: sub_days_def midnight_def)
  show ?thesis
    unfolding build_status_message_iff
    using assms(1,2,3,6,7) a b get_bf_counts_status_empty
    by (fastforce simp: action_all_zero)
qed

lemma svc_quiet_info: "get_evg_project_info svc_quiet repo branch = Inr info_no_projects"
  by (simp add: svc_quiet_def)

lemma build_status_message_unknown_branch:
  assumes "get_evg_project_info svc repo branch = Inr info"
    and "branch_to_projects_map info branch = None"
  shows "build_status_message svc repo branch
           = ([Info ''Getting Evergreen projects data''], Inl KeyError)"
  unfolding build_status_message_def
  by (simp add: logged_eval assms dict_get_def)

lemma run_empty_project_list:
  assumes "get_evg_project_info svc repo branch = Inr info"
    and "branch_to_projects_map info branch = Some []"
    and "active_project_names info = []"
    and "\<forall>query. \<exists>active_bfs. fetch_bfs svc query = Inr active_bfs"
    and "\<forall>s e. \<exists>builds. get_waterfall_status svc [] s e = Inr builds"
    and "16 \<le> ordinal (utcnow svc)" "ordinal (utcnow svc) \<le> 3652059"
  shows "\<exists>m. logged_status_messages (fst (evaluate_build_redness svc repo branch notify)) = [m]
     \<and> action m = GREEN
     \<and> map line_bf_count (count_lines (bf_status m)) = [0, 0, 0, 0, 0, 0]
     \<and> snd (evaluate_build_redness svc repo branch notify)
         = (if notify then send_slack_message svc SLACK_CHANNEL m else Inr ())"
proof -
  have u: "ordinal (utcnow svc) \<le> 3652060" using assms(7) by simp
  obtain e1 where b: "make_bfs_report svc info = (e1, Inr BFsReport_empty)"
    using make_bfs_report_no_active_projects[OF assms(4,3)] by blast
  obtain e2 where w: "make_waterfall_report svc [] (midnight (ordinal (utcnow svc) - 1)) = (e2, Inr [])"
    using make_waterfall_report_no_projects[OF assms(5,6) u] by blast
  from run_without_tickets[OF assms(1,2) b assms(6) u w get_waterfall_redness_status_no_projects]
  obtain entries m where
    m: "build_status_message svc repo branch = (entries, Inr m)" "action m = GREEN"
      "map line_bf_count (count_lines (bf_status m)) = [0, 0, 0, 0, 0, 0]"
    by auto
  show ?thesis
    using m logged_status_of_run[OF m(1), of notify]
    by (simp add: evaluate_build_redness_of_status[OF m(1)])
qed

text \<open>
  Claim C9. A branch that is missing from the branch-to-projects map makes the
  run fail with \<open>KeyError\<close> before anything but the first log line is emitted. A branch
  that is mapped to an empty project list, with an empty list of active projects, does not
  make the run fail: whenever Jira and Evergreen answer, the run completes and logs a
  status with all six BF counts 0 and the verdict GREEN.
\<close>

theorem C9_empty_project_list:
  "(get_evg_project_info svc repo branch = Inr info \<and> branch_to_projects_map info branch = None
      \<longrightarrow> evaluate_build_redness svc repo branch notify
            = ([Info ''Getting Evergreen projects data''], Inl KeyError))
   \<and> (get_evg_project_info svc repo branch = Inr info
       \<and> branch_to_projects_map info branch = Some [] \<and> active_project_names info = []
       \<and> (\<forall>query. \<exists>active_bfs. fetch_bfs svc query = Inr active_bfs)
       \<and> (\<forall>s e. \<exists>builds. get_waterfall_status svc [] s e = Inr builds)
       \<and> 16 \<le> ordinal (utcnow svc) \<and> ordinal (utcnow svc) \<le> 3652059
      \<longrightarrow> (\<exists>m. logged_status_messages (fst (evaluate_build_redness svc repo branch notify)) = [m]
             \<and> action m = GREEN
             \<and> map line_bf_count (count_lines (bf_status m)) = [0, 0, 0, 0, 0, 0]
             \<and> snd (evaluate_build_redness svc repo branch notify)
                 = (if notify then send_slack_message svc SLACK_CHANNEL m else Inr ())))"
  using build_status_message_unknown_branch[of svc repo branch info]
    evaluate_build_redness_failed[of svc repo branch _ KeyError notify]
    run_empty_project_list[of svc repo branch info notify]
  by blast

lemma svc_quiet_run:
  "\<exists>m. logged_status_messages (fst (evaluate_build_redness svc_quiet repo ''master'' notify)) = [m]
     \<and> action m = GREEN
     \<and> map line_bf_count (count_lines (bf_status m)) = [0, 0, 0, 0, 0, 0]
     \<and> snd (evaluate_build_redness svc_quiet repo ''master'' notify) = Inr ()"
proof -
  have "\<exists>m. logged_status_messages (fst (evaluate_build_redness svc_quiet repo ''master'' notify)) = [m]
     \<and> action m = GREEN
     \<and> map line_bf_count (count_lines (bf_status m)) = [0, 0, 0, 0, 0, 0]
     \<and> snd (evaluate_build_redness svc_quiet repo ''master'' notify)
         = (if notify then send_slack_message svc_quiet SLACK_CHANNEL m else Inr ())"
    by (rule run_empty_project_list[OF svc_quiet_info])
       (simp_all add: svc_quiet_def info_no_projects_def)
  then show ?thesis by (auto simp: svc_quiet_def)
qed

text \<open>
  A run on a branch with an empty project list, with collaborators that answer: it
  completes, with six counts 0 and the verdict GREEN.
\<close>

theorem C9_counterexample:
  "get_evg_project_info svc_quiet ''10gen/mongo'' ''master'' = Inr info_no_projects
   \<and> branch_to_projects_map info_no_projects ''master'' = Some []
   \<and> active_project_names info_no_projects = []
   \<and> snd (evaluate_build_redness svc_quiet ''10gen/mongo'' ''master'' False) = Inr ()
   \<and> map action (logged_status_messages
        (fst (evaluate_build_redness svc_quiet ''10gen/mongo'' ''master'' False))) = [GREEN]
   \<and> map (map line_bf_count \<circ> count_lines \<circ> bf_status) (logged_status_messages
        (fst (evaluate_build_redness svc_quiet ''10gen/mongo'' ''master'' False)))
       = [[0, 0, 0, 0, 0, 0]]"
  using svc_quiet_run[of "''10gen/mongo''" False]
  by (auto simp: svc_quiet_info info_no_projects_def)

text \<open>
  With the collaborators \<open>svc_quiet\<close>: the branch \<open>v8.0\<close> is not in the map and the run
  fails with \<open>KeyError\<close>; the branch \<open>master\<close> has an empty project list and the run
  completes with GREEN.
\<close>

theorem C9_empty_project_list_witness:
  "evaluate_build_redness svc_quiet ''10gen/mongo'' ''v8.0'' True
     = ([Info ''Getting Evergreen projects data''], Inl KeyError)
   \<and> map action (logged_status_messages
        (fst (evaluate_build_redness svc_quiet ''10gen/mongo'' ''master'' True))) = [GREEN]
   \<and> snd (evaluate_build_redness svc_quiet ''10gen/mongo'' ''master'' True) = Inr ()"
proof -
  have n: "branch_to_projects_map info_no_projects ''v8.0'' = None"
    and s: "branch_to_projects_map info_no_projects ''master'' = Some []"
    and a: "active_project_names info_no_projects = []"
    by (simp_all add: info_no_projects_def)
  have f: "\<forall>query. \<exists>active_bfs. fetch_bfs svc_quiet query = Inr active_bfs"
    and g: "\<forall>s e. \<exists>builds. get_waterfall_status svc_quiet [] s e = Inr builds"
    and t: "16 \<le> ordinal (utcnow svc_quiet)" "ordinal (utcnow svc_quiet) \<le> 3652059"
    by (simp_all add: svc_quiet_def)
  have "evaluate_build_redness svc_quiet ''10gen/mongo'' ''v8.0'' True
     = ([Info ''Getting Evergreen projects data''], Inl KeyError)"
    using C9_empty_project_list[of svc_quiet "''10gen/mongo''" "''v8.0''" info_no_projects True]
      svc_quiet_info n
    by blast
  moreover have "\<exists>m. logged_status_messages
             (fst (evaluate_build_redness svc_quiet ''10gen/mongo'' ''master'' True)) = [m]
             \<and> action m = GREEN
             \<and> map line_bf_count (count_lines (bf_status m)) = [0, 0, 0, 0, 0, 0]
             \<and> snd (evaluate_build_redness svc_quiet ''10gen/mongo'' ''master'' True)
                 = (if True then send_slack_message svc_quiet SLACK_CHANNEL m else Inr ())"
    using C9_empty_project_list[of svc_quiet "''10gen/mongo''" "''master''" info_no_projects True]
      svc_quiet_info s a f g t
    by blast
  ultimately show ?thesis by (auto simp: svc_quiet_def)
qed

lemma concat_replicate_single: "concat (replicate n [x]) = replicate n x"
  by (induction n) simp_all

lemma concat_replicate_pair: "concat (replicate n [x, x]) = replicate (2 * n) x"
  by (induction n) simp_all

lemma make_waterfall_report_one_project:
  assumes g: "\<And>s e. get_waterfall_status svc [p] s e = Inr builds"
    and d: "16 \<le> day" "day \<le> 3652060"
  shows "\<exists>e. make_waterfall_report svc [p] (midnight (day - 1))
           = (e, Inr [(p, replicate 14 (tally_of_matching_builds p builds))])"
proof -
  note w = waterfall_days_constant[of svc "[p]" builds "[0..<EVERGREEN_LOOKBACK_DAYS]"
      "midnight (day - 1)" "[]", OF g lookback_in_range[OF d]]
  have i: "map fst (initial_report [p]) = [p]" by (simp add: initial_report_def)
  show ?thesis
    using make_waterfall_report_of_days[OF w]
    by (simp add: i EVERGREEN_LOOKBACK_DAYS_def accumulate_tallies concat_replicate_single)
qed

lemma make_waterfall_report_repeated_project:
  assumes g: "\<And>s e. get_waterfall_status svc [p, p] s e = Inr builds"
    and d: "16 \<le> day" "day \<le> 3652060"
  shows "\<exists>e. make_waterfall_report svc [p, p] (midnight (day - 1))
           = (e, Inr [(p, replicate 28 (tally_of_matching_builds p builds))])"
proof -
  note w = waterfall_days_constant[of svc "[p, p]" builds "[0..<EVERGREEN_LOOKBACK_DAYS]"
      "midnight (day - 1)" "[]", OF g lookback_in_range[OF d]]
  have i: "map fst (initial_report [p, p]) = [p]" by (simp add: initial_report_def)
  show ?thesis
    using make_waterfall_report_of_days[OF w]
    by (simp add: i EVERGREEN_LOOKBACK_DAYS_def accumulate_tallies concat_replicate_pair)
qed

text \<open>
  A project name listed twice gets 28 tallies, two for each of the 14 days.
\<close>

theorem C10_counterexample:
  "snd (make_waterfall_report svc_one [''mongodb-mongo-master'', ''mongodb-mongo-master'']
          (midnight 739051))
     = Inr [(''mongodb-mongo-master'',
             replicate 28 (TaskStatusCounts_of_project ''mongodb-mongo-master''))]"
  using make_waterfall_report_repeated_project[of svc_one "''mongodb-mongo-master''" "[]" 739052]
  by (auto simp: svc_one_def tally_of_matching_builds_def)

lemma sort_replicate: "sort (replicate n (v::int)) = replicate n v"
  by (rule sorted_sort_id) simp

lemma median_replicate_14:
  "median (replicate 14 v) = bind_error (py_truediv (2 * v) 2) (\<lambda>m. Inr (PyFloat m))"
  by (simp add: median_def sort_replicate Let_def)

lemma py_truediv_0: "b \<noteq> 0 \<Longrightarrow> py_truediv 0 b = Inr (Finite 0)"
  by (simp add: py_truediv_def double_of_rat_def round_double_def)

lemma py_truediv_14_2: "py_truediv 14 2 = Inr (Finite 7)"
proof -
  have "double_of_rat 7 = Finite 7"
    using round_double_7 by (rule double_of_rat_small) simp_all
  then show ?thesis by (simp add: py_truediv_def)
qed

lemma redness_one_project:
  assumes "py_truediv (2 * failed x) 2 = Inr f"
  shows "get_waterfall_redness_status [(p, replicate 14 x)] ws we =
     ([DailyRedBoxCounts p (replicate 14 (failed x))],
      Inr \<lparr>between_start = ws, between_end = we, median_lines = [(p, PyFloat f)]\<rparr>)"
proof -
  have "redness_lines [(p, replicate 14 x)] [] =
          ([DailyRedBoxCounts p (replicate 14 (failed x))], Inr [(p, PyFloat f)])"
    by (simp add: Let_def logged_eval median_replicate_14 assms bind_error_def returns_def
          format_0f_PyFloat)
  then show ?thesis
    unfolding get_waterfall_redness_status_def
    by (simp add: bind_logged_def returns_def)
qed

lemma tally_build_red:
  "tally_of_matching_builds ''mongodb-mongo-master'' [build_red] = build_red"
  by (simp add: tally_of_matching_builds_def build_red_def add_def TaskStatusCounts_of_project_def)

lemma tally_nothing:
  "tally_of_matching_builds p [] = TaskStatusCounts_of_project p"
  by (simp add: tally_of_matching_builds_def)

lemma svc_one_run:
  "\<exists>entries m. build_status_message svc_one repo ''master'' = (entries, Inr m)
     \<and> action m = GREEN
     \<and> median_lines (waterfall m) = [(''mongodb-mongo-master'', PyFloat (Finite 0))]
     \<and> map line_bf_count (count_lines (bf_status m)) = [0, 0, 0, 0, 0, 0]"
proof -
  have i: "get_evg_project_info svc_one repo ''master'' = Inr info_master"
    and n: "branch_to_projects_map info_master ''master'' = Some [''mongodb-mongo-master'']"
    and t: "16 \<le> ordinal (utcnow svc_one)" "ordinal (utcnow svc_one) \<le> 3652060"
    by (simp_all add: svc_one_def info_master_def)
  obtain e1 where b: "make_bfs_report svc_one info_master = (e1, Inr BFsReport_empty)"
    using make_bfs_report_no_tickets[of svc_one info_master] by (auto simp: svc_one_def)
  obtain e2 where w: "make_waterfall_report svc_one [''mongodb-mongo-master'']
                        (midnight (ordinal (utcnow svc_one) - 1))
      = (e2, Inr [(''mongodb-mongo-master'',
                   replicate 14 (TaskStatusCounts_of_project ''mongodb-mongo-master''))])"
    using make_waterfall_report_one_project[of svc_one "''mongodb-mongo-master''" "[]",
        OF _ t] tally_nothing
    by (auto simp: svc_one_def)
  have r: "get_waterfall_redness_status
             [(''mongodb-mongo-master'',
               replicate 14 (TaskStatusCounts_of_project ''mongodb-mongo-master''))]
             (midnight (ordinal (utcnow svc_one) - 15)) (midnight (ordinal (utcnow svc_one) - 1))
      = ([DailyRedBoxCounts ''mongodb-mongo-master''
            (replicate 14 (failed (TaskStatusCounts_of_project ''mongodb-mongo-master'')))],
         Inr \<lparr>between_start = midnight (ordinal (utcnow svc_one) - 15),
               between_end = midnight (ordinal (utcnow svc_one) - 1),
               median_lines = [(''mongodb-mongo-master'', PyFloat (Finite 0))]\<rparr>)"
    by (rule redness_one_project) (simp add: TaskStatusCounts_of_project_def py_truediv_0)
  from run_without_tickets[OF i n b t w r] show ?thesis by auto
qed

lemma svc_red_run:
  "\<exists>entries m. build_status_message svc_red repo ''master'' = (entries, Inr m)
     \<and> action m = GREEN
     \<and> median_lines (waterfall m) = [(''mongodb-mongo-master'', PyFloat (Finite 7))]
     \<and> map line_bf_count (count_lines (bf_status m)) = [0, 0, 0, 0, 0, 0]"
proof -
  have i: "get_evg_project_info svc_red repo ''master'' = Inr info_master"
    and n: "branch_to_projects_map info_master ''master'' = Some [''mongodb-mongo-master'']"
    and t: "16 \<le> ordinal (utcnow svc_red)" "ordinal (utcnow svc_red) \<le> 3652060"
    by (simp_all add: svc_red_def svc_one_def info_master_def)
  obtain e1 where b: "make_bfs_report svc_red info_master = (e1, Inr BFsReport_empty)"
    using make_bfs_report_no_tickets[of svc_red info_master]
    by (auto simp: svc_red_def svc_one_def)
  obtain e2 where w: "make_waterfall_report svc_red [''mongodb-mongo-master'']
                        (midnight (ordinal (utcnow svc_red) - 1))
      = (e2, Inr [(''mongodb-mongo-master'', replicate 14 build_red)])"
    using make_waterfall_report_one_project[of svc_red "''mongodb-mongo-master''" "[build_red]",
        OF _ t] tally_build_red
    by (auto simp: svc_red_def)
  have r: "get_waterfall_redness_status [(''mongodb-mongo-master'', replicate 14 build_red)]
             (midnight (ordinal (utcnow svc_red) - 15)) (midnight (ordinal (utcnow svc_red) - 1))
      = ([DailyRedBoxCounts ''mongodb-mongo-master'' (replicate 14 (failed build_red))],
         Inr \<lparr>between_start = midnight (ordinal (utcnow svc_red) - 15),
               between_end = midnight (ordinal (utcnow svc_red) - 1),
               median_lines = [(''mongodb-mongo-master'', PyFloat (Finite 7))]\<rparr>)"
    by (rule redness_one_project) (simp add: build_red_def py_truediv_14_2)
  from run_without_tickets[OF i n b t w r] show ?thesis by auto
qed

text \<open>
  A run on 2024-06-15 at 12:30:15: the window is 2024-06-14 00:00 back to 2024-05-31
  00:00, queried day by day from the most recent.
\<close>

theorem C7_analysis_window_witness:
  "logged_windows (fst (evaluate_build_redness svc_one ''10gen/mongo'' ''master'' False))
     = map (\<lambda>d. (midnight (739051 - (int d + 1)), midnight (739051 - int d))) [0..<14]
   \<and> map (between_end \<circ> waterfall)
         (logged_status_messages (fst (evaluate_build_redness svc_one ''10gen/mongo'' ''master'' False)))
       = [midnight 739051]
   \<and> map (between_start \<circ> waterfall)
         (logged_status_messages (fst (evaluate_build_redness svc_one ''10gen/mongo'' ''master'' False)))
       = [midnight 739037]"
proof -
  obtain entries m where
    b: "build_status_message svc_one ''10gen/mongo'' ''master'' = (entries, Inr m)"
    using svc_one_run[of "''10gen/mongo''"] by auto
  then have "StatusLines m \<in> set (fst (evaluate_build_redness svc_one ''10gen/mongo'' ''master'' False))"
    unfolding status_logged_iff by blast
  with C7_analysis_window[of svc_one "''10gen/mongo''" "''master''" False m]
    logged_status_of_run[OF b, of False]
  show ?thesis by (simp add: svc_one_def)
qed

text \<open>
  Two runs without tickets, one over a waterfall without failed tasks and one with seven
  failed tasks a day: the medians in the two messages differ, the action lines agree.
\<close>

theorem C2_verdict_ignores_waterfall_witness:
  "\<exists>m1 m2.
      StatusLines m1 \<in> set (fst (evaluate_build_redness svc_one ''10gen/mongo'' ''master'' False))
    \<and> StatusLines m2 \<in> set (fst (evaluate_build_redness svc_red ''10gen/mongo'' ''master'' False))
    \<and> map line_bf_count (count_lines (bf_status m1)) = map line_bf_count (count_lines (bf_status m2))
    \<and> median_lines (waterfall m1) = [(''mongodb-mongo-master'', PyFloat (Finite 0))]
    \<and> median_lines (waterfall m2) = [(''mongodb-mongo-master'', PyFloat (Finite 7))]
    \<and> action m1 = action m2"
proof -
  obtain e1 m1 where
    b1: "build_status_message svc_one ''10gen/mongo'' ''master'' = (e1, Inr m1)"
    and w1: "median_lines (waterfall m1) = [(''mongodb-mongo-master'', PyFloat (Finite 0))]"
    and c1: "map line_bf_count (count_lines (bf_status m1)) = [0, 0, 0, 0, 0, 0]"
    using svc_one_run[of "''10gen/mongo''"] by auto
  obtain e2 m2 where
    b2: "build_status_message svc_red ''10gen/mongo'' ''master'' = (e2, Inr m2)"
    and w2: "median_lines (waterfall m2) = [(''mongodb-mongo-master'', PyFloat (Finite 7))]"
    and c2: "map line_bf_count (count_lines (bf_status m2)) = [0, 0, 0, 0, 0, 0]"
    using svc_red_run[of "''10gen/mongo''"] by auto
  have s1: "StatusLines m1 \<in> set (fst (evaluate_build_redness svc_one ''10gen/mongo'' ''master'' False))"
    unfolding status_logged_iff using b1 by blast
  have s2: "StatusLines m2 \<in> set (fst (evaluate_build_redness svc_red ''10gen/mongo'' ''master'' False))"
    unfolding status_logged_iff using b2 by blast
  have c: "map line_bf_count (count_lines (bf_status m1))
             = map line_bf_count (count_lines (bf_status m2))"
    using c1 c2 by simp
  have "action m1 = action m2"
    using C2_verdict_ignores_waterfall[OF s1 s2 c] by blast
  then show ?thesis using s1 s2 c w1 w2 by (intro exI[of _ m1] exI[of _ m2]) simp
qed

text \<open>
  One project, fourteen successful daily queries: its series has 14 tallies and its median
  is defined.
\<close>

theorem C10_waterfall_report_series_witness:
  "\<exists>entries waterfall_report.
      make_waterfall_report svc_red [''mongodb-mongo-master''] (midnight 739051)
        = (entries, Inr waterfall_report)
    \<and> distinct [''mongodb-mongo-master'']
    \<and> map fst waterfall_report = [''mongodb-mongo-master'']
    \<and> (\<exists>series. map_of waterfall_report ''mongodb-mongo-master'' = Some series
          \<and> length series = 14 \<and> series \<noteq> [])
    \<and> snd (get_waterfall_redness_status waterfall_report (midnight 739037) (midnight 739051))
         \<noteq> Inl StatisticsError"
proof -
  obtain e wr where
    w: "make_waterfall_report svc_red [''mongodb-mongo-master''] (midnight 739051) = (e, Inr wr)"
    using make_waterfall_report_one_project[of svc_red "''mongodb-mongo-master''" "[build_red]" 739052]
    by (auto simp: svc_red_def)
  have d: "distinct [''mongodb-mongo-master'']" by simp
  from C10_waterfall_report_series[of "[''mongodb-mongo-master'']" "[]" "''mongodb-mongo-master''"
      svc_red "midnight 739051" "midnight 739037"] w d
  have k: "map fst wr = [''mongodb-mongo-master'']"
    and s: "\<exists>series. map_of wr ''mongodb-mongo-master'' = Some series
          \<and> length series = 14 \<and> series \<noteq> []"
    and r: "snd (get_waterfall_redness_status wr (midnight 739037) (midnight 739051))
         \<noteq> Inl StatisticsError"
    by fastforce+
  show ?thesis
    by (intro exI[of _ e] exI[of _ wr] conjI) (fact w d k s r)+
qed

text \<open>
  A report in which project \<open>b\<close> has no tally: the status cannot be computed, whether
  \<open>b\<close> comes first or second.
\<close>

theorem C8_empty_series_fails_witness:
  "(''b'', []) \<in> set [(''a'', [build_red]), (''b'', [])]
   \<and> (\<exists>e. snd (get_waterfall_redness_status [(''a'', [build_red]), (''b'', [])]
                (midnight 739037) (midnight 739051)) = Inl e
          \<and> (e = StatisticsError \<or> e = OverflowError))
   \<and> get_waterfall_redness_status [(''b'', []), (''a'', [build_red])]
        (midnight 739037) (midnight 739051)
       = ([DailyRedBoxCounts ''b'' []], Inl StatisticsError)"
  using C8_empty_series_fails[of "''b''" "[(''a'', [build_red]), (''b'', [])]"
      "midnight 739037" "midnight 739051"]
    C8_empty_series_fails[of "''b''" "[(''a'', [build_red])]" "midnight 739037" "midnight 739051"]
  by simp

end
